theory Spec2Isabelle
  imports Main "HOL-Library.Sublist" "HOL-Library.Multiset"
begin

section \<open>The browser environment: OpenCV.js, the canvas, the console\<close>

text \<open>
  The component of \<^verbatim>\<open>src/src/App.tsx\<close> (and its dark-mode variant
  \<^verbatim>\<open>src/unnamed/part_000\<close>) computes no pixel itself: it calls OpenCV.js and the DOM.
  The environment is therefore a parameter of the model. It is a deterministic machine
  over an abstract world \<open>'w\<close> (the WASM heap, the canvas bitmap, the decoded image):
  every call takes the world and returns a new one together with either the value the
  call returns (\<open>Inr\<close>) or the exception it throws (\<open>Inl\<close>). A native matrix
  (\<^verbatim>\<open>cv.Mat\<close>) is the handle the library returns for it.
\<close>

datatype exn = Exn string

type_synonym Mat = nat

datatype Size = Size int int

datatype HTMLImageElement = HTMLImageElement (src: string)

datatype HTMLCanvasElement = HTMLCanvasElement

text \<open>Calls that return a new native matrix.\<close>

datatype alloc_call =
    imread HTMLImageElement
  | new_Mat
  | getStructuringElement int Size

text \<open>Calls that return nothing; \<open>Mat_delete m\<close> is \<^verbatim>\<open>m.delete()\<close>.\<close>

datatype proc_call =
    GaussianBlur Mat Mat Size int int int
  | medianBlur Mat Mat int
  | cvtColor Mat Mat int
  | Canny Mat Mat int int int bool
  | Laplacian Mat Mat int int int int int
  | threshold Mat Mat int int int
  | morphologyEx Mat Mat int Mat
  | imshow HTMLCanvasElement Mat
  | Mat_delete Mat

text \<open>
  The numeric constants of the \<^verbatim>\<open>cv\<close> object are fields of the environment, since their
  values are the library's and not the repository's; the source only names them.
\<close>

record 'w env =
  BORDER_DEFAULT :: int
  COLOR_RGBA2GRAY :: int
  CV_8U :: int
  THRESH_BINARY :: int
  THRESH_OTSU :: int
  MORPH_RECT :: int
  MORPH_OPEN :: int
  cv_alloc :: "alloc_call \<Rightarrow> 'w \<Rightarrow> (exn + Mat) \<times> 'w"
  cv_proc :: "proc_call \<Rightarrow> 'w \<Rightarrow> (exn + unit) \<times> 'w"
  canvas_toDataURL :: "HTMLCanvasElement \<Rightarrow> 'w \<Rightarrow> (exn + string) \<times> 'w"

text \<open>
  Everything an invocation does to the outside is recorded, in order, as an event:
  a library call with its outcome, a React state setter, a line on the console.
\<close>

datatype event =
    Alloc alloc_call "exn + Mat"
  | Proc proc_call "exn + unit"
  | toDataURL HTMLCanvasElement "exn + string"
  | setIsProcessing bool
  | setProcessedImage "string option"
  | console_error string exn

section \<open>The component state\<close>

text \<open>
  The \<^verbatim>\<open>useState\<close> cells and the two refs that \<^verbatim>\<open>processImage\<close> reads. A value of type
  \<^verbatim>\<open>string | null\<close> is a \<open>string option\<close>; a ref is \<open>None\<close> while its element is not
  mounted. The dark-mode variant has one more cell.
\<close>

record app =
  selectedImage :: "string option"
  processedImage :: "string option"
  selectedTechnique :: string
  isProcessing :: bool
  imageRef :: "HTMLImageElement option"
  canvasRef :: "HTMLCanvasElement option"

record app_dark = app +
  isDarkMode :: bool

text \<open>JavaScript truthiness of a \<^verbatim>\<open>string | null\<close>: null and the empty string are falsy.\<close>

fun truthy :: "string option \<Rightarrow> bool" where
  "truthy None = False"
| "truthy (Some s) = (s \<noteq> [])"

record ('s, 'w) machine =
  react :: 's
  world :: 'w
  trace :: "event list"

type_synonym ('a, 's, 'w) action = "('s, 'w) machine \<Rightarrow> (exn + 'a) \<times> ('s, 'w) machine"

text \<open>
  Sequencing inside a \<^verbatim>\<open>try\<close> block: a statement that throws skips the rest, and what it
  did to the world, to the state and to the trace before throwing stays done.
\<close>

definition andThen :: "('a, 's, 'w) action \<Rightarrow> ('a \<Rightarrow> ('b, 's, 'w) action) \<Rightarrow> ('b, 's, 'w) action" where
  "andThen f g m = (case f m of (Inl e, m') \<Rightarrow> (Inl e, m') | (Inr a, m') \<Rightarrow> g a m')"

definition cv_new :: "'w env \<Rightarrow> alloc_call \<Rightarrow> (Mat, 's, 'w) action" where
  "cv_new cv c m =
     (case cv_alloc cv c (world m) of
        (r, w') \<Rightarrow> (r, m\<lparr>world := w', trace := trace m @ [Alloc c r]\<rparr>))"

definition cv_do :: "'w env \<Rightarrow> proc_call \<Rightarrow> (unit, 's, 'w) action" where
  "cv_do cv c m =
     (case cv_proc cv c (world m) of
        (r, w') \<Rightarrow> (r, m\<lparr>world := w', trace := trace m @ [Proc c r]\<rparr>))"

definition canvas_dataURL :: "'w env \<Rightarrow> HTMLCanvasElement \<Rightarrow> (string, 's, 'w) action" where
  "canvas_dataURL cv c m =
     (case canvas_toDataURL cv c (world m) of
        (r, w') \<Rightarrow> (r, m\<lparr>world := w', trace := trace m @ [toDataURL c r]\<rparr>))"

definition set_isProcessing :: "bool \<Rightarrow> ('z app_scheme, 'w) machine \<Rightarrow> ('z app_scheme, 'w) machine" where
  "set_isProcessing b m =
     m\<lparr>react := (react m)\<lparr>isProcessing := b\<rparr>, trace := trace m @ [setIsProcessing b]\<rparr>"

definition set_processedImage :: "string option \<Rightarrow> (unit, 'z app_scheme, 'w) action" where
  "set_processedImage v m =
     (Inr (), m\<lparr>react := (react m)\<lparr>processedImage := v\<rparr>, trace := trace m @ [setProcessedImage v]\<rparr>)"

definition log_error :: "string \<Rightarrow> exn \<Rightarrow> ('s, 'w) machine \<Rightarrow> ('s, 'w) machine" where
  "log_error msg e m = m\<lparr>trace := trace m @ [console_error msg e]\<rparr>"

section \<open>The technique names\<close>

record filtering =
  GAUSSIAN :: string
  MEDIAN :: string
  CANNY :: string
  LAPLACIAN :: string

record segmentation =
  BINARY :: string
  OTSU :: string
  MORPHOLOGICAL :: string

record techniques =
  FILTERING :: filtering
  SEGMENTATION :: segmentation

text \<open>\<^verbatim>\<open>Object.values\<close> lists the values of an object literal in the order of its keys.\<close>

definition Object_values_filtering :: "filtering \<Rightarrow> string list" where
  "Object_values_filtering f = [GAUSSIAN f, MEDIAN f, CANNY f, LAPLACIAN f]"

definition Object_values_segmentation :: "segmentation \<Rightarrow> string list" where
  "Object_values_segmentation g = [BINARY g, OTSU g, MORPHOLOGICAL g]"

text \<open>\<^verbatim>\<open>TECHNIQUES\<close> of \<^verbatim>\<open>src/src/App.tsx\<close>, lines 6 to 18.\<close>

definition TECHNIQUES :: techniques where
  "TECHNIQUES =
     \<lparr>FILTERING =
        \<lparr>GAUSSIAN = ''Gaussian Blur'',
         MEDIAN = ''Median Filter'',
         CANNY = ''Canny Edge Detection'',
         LAPLACIAN = ''Laplacian Spatial Filter''\<rparr>,
      SEGMENTATION =
        \<lparr>BINARY = ''Binary Thresholding'',
         OTSU = ''Otsu's Thresholding'',
         MORPHOLOGICAL = ''Morphological Cleaning''\<rparr>\<rparr>"

text \<open>\<^verbatim>\<open>TECHNIQUES\<close> of the dark-mode variant \<^verbatim>\<open>src/unnamed/part_000\<close>, lines 7 to 19.\<close>

definition TECHNIQUES_dark :: techniques where
  "TECHNIQUES_dark =
     \<lparr>FILTERING =
        \<lparr>GAUSSIAN = ''Gaussian Blur'',
         MEDIAN = ''Median Filter'',
         CANNY = ''Canny Edge Detection'',
         LAPLACIAN = ''Laplacian Spatial Filter''\<rparr>,
      SEGMENTATION =
        \<lparr>BINARY = ''Binary Thresholding'',
         OTSU = ''Otsu's Thresholding'',
         MORPHOLOGICAL = ''Morphological Cleaning''\<rparr>\<rparr>"

section \<open>processImage\<close>

text \<open>
  The \<^verbatim>\<open>switch (selectedTechnique)\<close> of \<^verbatim>\<open>src/src/App.tsx\<close>, lines 100 to 136. The case
  labels are compared with \<^verbatim>\<open>===\<close> in the order written, every case ends in
  \<^verbatim>\<open>break\<close>, and there is no default: an unmatched name runs nothing.
  \<^verbatim>\<open>new cv.Size(5, 5)\<close> builds a plain value and is the argument \<open>Size 5 5\<close>.
\<close>

definition switch_selectedTechnique :: "'w env \<Rightarrow> string \<Rightarrow> Mat \<Rightarrow> Mat \<Rightarrow> (unit, 's, 'w) action" where
  "switch_selectedTechnique cv t img dst =
     (if t = GAUSSIAN (FILTERING TECHNIQUES) then
        cv_do cv (GaussianBlur img dst (Size 5 5) 0 0 (BORDER_DEFAULT cv))
      else if t = MEDIAN (FILTERING TECHNIQUES) then
        cv_do cv (medianBlur img dst 5)
      else if t = CANNY (FILTERING TECHNIQUES) then
        andThen (cv_do cv (cvtColor img img (COLOR_RGBA2GRAY cv))) (\<lambda>_.
        cv_do cv (Canny img dst 50 150 3 False))
      else if t = LAPLACIAN (FILTERING TECHNIQUES) then
        andThen (cv_do cv (cvtColor img img (COLOR_RGBA2GRAY cv))) (\<lambda>_.
        cv_do cv (Laplacian img dst (CV_8U cv) 1 1 0 (BORDER_DEFAULT cv)))
      else if t = BINARY (SEGMENTATION TECHNIQUES) then
        andThen (cv_do cv (cvtColor img img (COLOR_RGBA2GRAY cv))) (\<lambda>_.
        cv_do cv (threshold img dst 127 255 (THRESH_BINARY cv)))
      else if t = OTSU (SEGMENTATION TECHNIQUES) then
        andThen (cv_do cv (cvtColor img img (COLOR_RGBA2GRAY cv))) (\<lambda>_.
        cv_do cv (threshold img dst 0 255 (THRESH_BINARY cv + THRESH_OTSU cv)))
      else if t = MORPHOLOGICAL (SEGMENTATION TECHNIQUES) then
        andThen (cv_do cv (cvtColor img img (COLOR_RGBA2GRAY cv))) (\<lambda>_.
        andThen (cv_do cv (threshold img dst 127 255 (THRESH_BINARY cv))) (\<lambda>_.
        andThen (cv_new cv (getStructuringElement (MORPH_RECT cv) (Size 5 5))) (\<lambda>kernel.
        andThen (cv_do cv (morphologyEx dst dst (MORPH_OPEN cv) kernel)) (\<lambda>_.
        cv_do cv (Mat_delete kernel)))))
      else Pair (Inr ()))"

text \<open>
  The body of the \<^verbatim>\<open>try\<close> block, lines 97 to 142. The technique, the image element and
  the canvas are the values the handler reads from the render it belongs to.
\<close>

definition try_block ::
  "'w env \<Rightarrow> string \<Rightarrow> HTMLImageElement \<Rightarrow> HTMLCanvasElement \<Rightarrow> (unit, app, 'w) action" where
  "try_block cv technique image_el canvas =
     andThen (cv_new cv (imread image_el)) (\<lambda>img.
     andThen (cv_new cv new_Mat) (\<lambda>dst.
     andThen (switch_selectedTechnique cv technique img dst) (\<lambda>_.
     andThen (cv_do cv (imshow canvas dst)) (\<lambda>_.
     andThen (canvas_dataURL cv canvas) (\<lambda>url.
     andThen (set_processedImage (Some url)) (\<lambda>_.
     andThen (cv_do cv (Mat_delete img)) (\<lambda>_.
     cv_do cv (Mat_delete dst))))))))"

text \<open>
  \<^verbatim>\<open>processImage\<close>, lines 91 to 148: the guard, \<^verbatim>\<open>setIsProcessing(true)\<close>, the
  \<^verbatim>\<open>try\<close> block, the \<^verbatim>\<open>catch\<close> that only logs, the \<^verbatim>\<open>finally\<close>. The function is
  declared \<^verbatim>\<open>async\<close> but awaits nothing, so one invocation runs to its end before any
  other handler; its promise always resolves. The result is the state, the world and
  the events of this invocation.
\<close>

definition processImage :: "'w env \<Rightarrow> app \<Rightarrow> 'w \<Rightarrow> (app, 'w) machine" where
  "processImage cv s w =
     (if \<not> truthy (selectedImage s) \<or> selectedTechnique s = [] \<or>
         imageRef s = None \<or> canvasRef s = None
      then \<lparr>react = s, world = w, trace = []\<rparr>
      else
        (case try_block cv (selectedTechnique s) (the (imageRef s)) (the (canvasRef s))
                (set_isProcessing True \<lparr>react = s, world = w, trace = []\<rparr>) of
           (Inr _, m) \<Rightarrow> set_isProcessing False m
         | (Inl error, m) \<Rightarrow>
             set_isProcessing False (log_error ''Error processing image:'' error m)))"

section \<open>Uploading, downloading, rendering\<close>

text \<open>
  A \<^verbatim>\<open>File\<close> is modelled by what \<^verbatim>\<open>FileReader.readAsDataURL\<close> makes of it: \<open>Some url\<close>
  when the read completes and \<^verbatim>\<open>onload\<close> fires with that result, \<open>None\<close> when the read
  fails and \<^verbatim>\<open>onload\<close> never fires.
\<close>

datatype File = File (readAsDataURL: "string option")

text \<open>
  \<^verbatim>\<open>handleImageUpload\<close>, lines 82 to 89, together with its \<^verbatim>\<open>onload\<close> callback; \<open>s\<close> is
  the state at the moment the read completes. The callers index a \<^verbatim>\<open>FileList\<close>, so the
  argument can be \<^verbatim>\<open>undefined\<close>, on which \<^verbatim>\<open>readAsDataURL\<close> throws a TypeError.
\<close>

definition handleImageUpload :: "File option \<Rightarrow> app \<Rightarrow> exn + app" where
  "handleImageUpload file s =
     (case file of
        None \<Rightarrow> Inl (Exn ''TypeError'')
      | Some f \<Rightarrow>
          (case readAsDataURL f of
             None \<Rightarrow> Inr s
           | Some result \<Rightarrow> Inr (s\<lparr>selectedImage := Some result, processedImage := None\<rparr>)))"

text \<open>
  \<^verbatim>\<open>handleDrop\<close>, lines 60 to 69 (the class list of the drop zone is presentation and is
  left out): \<open>files\<close> is \<^verbatim>\<open>e.dataTransfer?.files\<close>.
\<close>

definition handleDrop :: "File list option \<Rightarrow> app \<Rightarrow> exn + app" where
  "handleDrop files s =
     (case files of
        Some (f # fs) \<Rightarrow> handleImageUpload (Some f) s
      | _ \<Rightarrow> Inr s)"

text \<open>
  The \<^verbatim>\<open>onChange\<close> of the file input, line 197:
  \<^verbatim>\<open>e.target.files && handleImageUpload(e.target.files[0])\<close>.
\<close>

definition fileInput_onChange :: "File list option \<Rightarrow> app \<Rightarrow> exn + app" where
  "fileInput_onChange files s =
     (case files of
        None \<Rightarrow> Inr s
      | Some fs \<Rightarrow> handleImageUpload (case fs of [] \<Rightarrow> None | f # _ \<Rightarrow> Some f) s)"

text \<open>The \<^verbatim>\<open>onChange\<close> of a radio input, lines 219 and 239; \<open>v\<close> is \<^verbatim>\<open>e.target.value\<close>.\<close>

definition radio_onChange :: "string \<Rightarrow> app \<Rightarrow> app" where
  "radio_onChange v s = s\<lparr>selectedTechnique := v\<rparr>"

text \<open>
  \<^verbatim>\<open>downloadImage\<close>, lines 150 to 159, as the list of what it does to the document. The
  anchor element is the pair of the two attributes the function sets.
\<close>

record anchor =
  href :: string
  download :: string

datatype dom_event =
    createElement string
  | appendChild anchor
  | click anchor
  | removeChild anchor

definition downloadImage :: "app \<Rightarrow> dom_event list" where
  "downloadImage s =
     (if \<not> truthy (processedImage s) then []
      else
        (let link = \<lparr>href = the (processedImage s), download = ''processed-image.png''\<rparr>
         in [createElement ''a'', appendChild link, click link, removeChild link]))"

text \<open>
  What \<^verbatim>\<open>App\<close> returns, lines 161 to 287, reduced to the parts that depend on the state
  or carry a handler: the input image (rendered only when \<^verbatim>\<open>selectedImage\<close> is truthy),
  the radio inputs with value and checked flag, the two buttons, the output image, the
  hidden canvas. Class names and static text are left out.
\<close>

record view =
  input_img :: "HTMLImageElement option"
  radios :: "(string \<times> bool) list"
  process_disabled :: bool
  process_label :: string
  output_img :: "string option"
  download_disabled :: bool
  hidden_canvas :: HTMLCanvasElement

definition App_render :: "app \<Rightarrow> view" where
  "App_render s =
     \<lparr>input_img =
        (if truthy (selectedImage s) then Some (HTMLImageElement (the (selectedImage s))) else None),
      radios =
        map (\<lambda>technique. (technique, selectedTechnique s = technique))
          (Object_values_filtering (FILTERING TECHNIQUES)) @
        map (\<lambda>technique. (technique, selectedTechnique s = technique))
          (Object_values_segmentation (SEGMENTATION TECHNIQUES)),
      process_disabled =
        (\<not> truthy (selectedImage s) \<or> selectedTechnique s = [] \<or> isProcessing s),
      process_label = (if isProcessing s then ''Processing...'' else ''Process Image''),
      output_img = (if truthy (processedImage s) then processedImage s else None),
      download_disabled = (\<not> truthy (processedImage s)),
      hidden_canvas = HTMLCanvasElement\<rparr>"

text \<open>
  The initial values of the \<^verbatim>\<open>useState\<close> and \<^verbatim>\<open>useRef\<close> hooks, lines 21 to 27, and what
  React does after every render: a ref points to its element when the element is
  rendered and is null otherwise.
\<close>

definition initial :: app where
  "initial =
     \<lparr>selectedImage = None, processedImage = None, selectedTechnique = [],
      isProcessing = False, imageRef = None, canvasRef = None\<rparr>"

definition commit :: "app \<Rightarrow> app" where
  "commit s = s\<lparr>imageRef := input_img (App_render s), canvasRef := Some (hidden_canvas (App_render s))\<rparr>"

text \<open>
  The states the mounted component can be in between two handlers. A radio input fires
  \<^verbatim>\<open>onChange\<close> with its own value; a disabled button fires no \<^verbatim>\<open>onClick\<close>; the
  library may be in any world when \<^verbatim>\<open>processImage\<close> starts.
\<close>

inductive reachable :: "'w env \<Rightarrow> app \<Rightarrow> bool" for cv :: "'w env" where
  mount: "reachable cv (commit initial)"
| pick: "reachable cv s \<Longrightarrow> fileInput_onChange files s = Inr s' \<Longrightarrow> reachable cv (commit s')"
| drop: "reachable cv s \<Longrightarrow> handleDrop files s = Inr s' \<Longrightarrow> reachable cv (commit s')"
| radio: "reachable cv s \<Longrightarrow> (v, c) \<in> set (radios (App_render s)) \<Longrightarrow>
          reachable cv (commit (radio_onChange v s))"
| process: "reachable cv s \<Longrightarrow> \<not> process_disabled (App_render s) \<Longrightarrow>
          reachable cv (commit (react (processImage cv s w)))"

section \<open>The dark-mode variant\<close>

text \<open>
  \<^verbatim>\<open>src/unnamed/part_000\<close> is a second version of the component. Its
  \<^verbatim>\<open>switch (selectedTechnique)\<close>, lines 102 to 138, refers to its own \<^verbatim>\<open>TECHNIQUES\<close>.
\<close>

definition switch_selectedTechnique_dark :: "'w env \<Rightarrow> string \<Rightarrow> Mat \<Rightarrow> Mat \<Rightarrow> (unit, 's, 'w) action" where
  "switch_selectedTechnique_dark cv t img dst =
     (if t = GAUSSIAN (FILTERING TECHNIQUES_dark) then
        cv_do cv (GaussianBlur img dst (Size 5 5) 0 0 (BORDER_DEFAULT cv))
      else if t = MEDIAN (FILTERING TECHNIQUES_dark) then
        cv_do cv (medianBlur img dst 5)
      else if t = CANNY (FILTERING TECHNIQUES_dark) then
        andThen (cv_do cv (cvtColor img img (COLOR_RGBA2GRAY cv))) (\<lambda>_.
        cv_do cv (Canny img dst 50 150 3 False))
      else if t = LAPLACIAN (FILTERING TECHNIQUES_dark) then
        andThen (cv_do cv (cvtColor img img (COLOR_RGBA2GRAY cv))) (\<lambda>_.
        cv_do cv (Laplacian img dst (CV_8U cv) 1 1 0 (BORDER_DEFAULT cv)))
      else if t = BINARY (SEGMENTATION TECHNIQUES_dark) then
        andThen (cv_do cv (cvtColor img img (COLOR_RGBA2GRAY cv))) (\<lambda>_.
        cv_do cv (threshold img dst 127 255 (THRESH_BINARY cv)))
      else if t = OTSU (SEGMENTATION TECHNIQUES_dark) then
        andThen (cv_do cv (cvtColor img img (COLOR_RGBA2GRAY cv))) (\<lambda>_.
        cv_do cv (threshold img dst 0 255 (THRESH_BINARY cv + THRESH_OTSU cv)))
      else if t = MORPHOLOGICAL (SEGMENTATION TECHNIQUES_dark) then
        andThen (cv_do cv (cvtColor img img (COLOR_RGBA2GRAY cv))) (\<lambda>_.
        andThen (cv_do cv (threshold img dst 127 255 (THRESH_BINARY cv))) (\<lambda>_.
        andThen (cv_new cv (getStructuringElement (MORPH_RECT cv) (Size 5 5))) (\<lambda>kernel.
        andThen (cv_do cv (morphologyEx dst dst (MORPH_OPEN cv) kernel)) (\<lambda>_.
        cv_do cv (Mat_delete kernel)))))
      else Pair (Inr ()))"

text \<open>The body of its \<^verbatim>\<open>try\<close> block, lines 99 to 144.\<close>

definition try_block_dark ::
  "'w env \<Rightarrow> string \<Rightarrow> HTMLImageElement \<Rightarrow> HTMLCanvasElement \<Rightarrow> (unit, app_dark, 'w) action" where
  "try_block_dark cv technique image_el canvas =
     andThen (cv_new cv (imread image_el)) (\<lambda>img.
     andThen (cv_new cv new_Mat) (\<lambda>dst.
     andThen (switch_selectedTechnique_dark cv technique img dst) (\<lambda>_.
     andThen (cv_do cv (imshow canvas dst)) (\<lambda>_.
     andThen (canvas_dataURL cv canvas) (\<lambda>url.
     andThen (set_processedImage (Some url)) (\<lambda>_.
     andThen (cv_do cv (Mat_delete img)) (\<lambda>_.
     cv_do cv (Mat_delete dst))))))))"

text \<open>Its \<^verbatim>\<open>processImage\<close>, lines 93 to 150.\<close>

definition processImage_dark :: "'w env \<Rightarrow> app_dark \<Rightarrow> 'w \<Rightarrow> (app_dark, 'w) machine" where
  "processImage_dark cv s w =
     (if \<not> truthy (selectedImage s) \<or> selectedTechnique s = [] \<or>
         imageRef s = None \<or> canvasRef s = None
      then \<lparr>react = s, world = w, trace = []\<rparr>
      else
        (case try_block_dark cv (selectedTechnique s) (the (imageRef s)) (the (canvasRef s))
                (set_isProcessing True \<lparr>react = s, world = w, trace = []\<rparr>) of
           (Inr _, m) \<Rightarrow> set_isProcessing False m
         | (Inl error, m) \<Rightarrow>
             set_isProcessing False (log_error ''Error processing image:'' error m)))"

text \<open>A run of the dark-mode variant seen without its theme cell.\<close>

definition without_theme :: "(app_dark, 'w) machine \<Rightarrow> (app, 'w) machine" where
  "without_theme m = \<lparr>react = app.truncate (react m), world = world m, trace = trace m\<rparr>"

text \<open>Its \<^verbatim>\<open>handleImageUpload\<close>, lines 84 to 91, and the two callers, lines 62 to 71 and 216.\<close>

definition handleImageUpload_dark :: "File option \<Rightarrow> app_dark \<Rightarrow> exn + app_dark" where
  "handleImageUpload_dark file s =
     (case file of
        None \<Rightarrow> Inl (Exn ''TypeError'')
      | Some f \<Rightarrow>
          (case readAsDataURL f of
             None \<Rightarrow> Inr s
           | Some result \<Rightarrow> Inr (s\<lparr>selectedImage := Some result, processedImage := None\<rparr>)))"

definition handleDrop_dark :: "File list option \<Rightarrow> app_dark \<Rightarrow> exn + app_dark" where
  "handleDrop_dark files s =
     (case files of
        Some (f # fs) \<Rightarrow> handleImageUpload_dark (Some f) s
      | _ \<Rightarrow> Inr s)"

definition fileInput_onChange_dark :: "File list option \<Rightarrow> app_dark \<Rightarrow> exn + app_dark" where
  "fileInput_onChange_dark files s =
     (case files of
        None \<Rightarrow> Inr s
      | Some fs \<Rightarrow> handleImageUpload_dark (case fs of [] \<Rightarrow> None | f # _ \<Rightarrow> Some f) s)"

text \<open>The theme button, line 171: \<^verbatim>\<open>setIsDarkMode(!isDarkMode)\<close>.\<close>

definition toggle_theme :: "app_dark \<Rightarrow> app_dark" where
  "toggle_theme s = s\<lparr>isDarkMode := \<not> isDarkMode s\<rparr>"

section \<open>Reading a trace\<close>

text \<open>The library call an event records, without its outcome.\<close>

fun lib_call :: "event \<Rightarrow> (alloc_call + proc_call) option" where
  "lib_call (Alloc c r) = Some (Inl c)"
| "lib_call (Proc c r) = Some (Inr c)"
| "lib_call _ = None"

definition lib_calls :: "event list \<Rightarrow> (alloc_call + proc_call) list" where
  "lib_calls evs = List.map_filter lib_call evs"

text \<open>The exception a call event ended with, if it threw.\<close>

fun thrown :: "event \<Rightarrow> exn option" where
  "thrown (Alloc c (Inl e)) = Some e"
| "thrown (Proc c (Inl e)) = Some e"
| "thrown (toDataURL c (Inl e)) = Some e"
| "thrown _ = None"

text \<open>
  \<open>performed r evs L\<close>: the events \<open>evs\<close> are library calls only and they are the calls
  \<open>L\<close> in order. When the outcome \<open>r\<close> is a normal completion, all of \<open>L\<close> was called
  and every call returned. When \<open>r\<close> is the exception \<open>e\<close>, the calls are \<open>L\<close> cut
  after the first call that threw: at least one call was made, every call but the last
  returned, and the last one threw \<open>e\<close>.
\<close>

definition performed :: "exn + unit \<Rightarrow> event list \<Rightarrow> (alloc_call + proc_call) list \<Rightarrow> bool" where
  "performed r evs L =
     (length (lib_calls evs) = length evs \<and>
      (case r of
         Inr _ \<Rightarrow> lib_calls evs = L \<and> list_all (\<lambda>ev. thrown ev = None) evs
       | Inl e \<Rightarrow>
           evs \<noteq> [] \<and> prefix (lib_calls evs) L \<and>
           list_all (\<lambda>ev. thrown ev = None) (butlast evs) \<and>
           thrown (last evs) = Some e))"

text \<open>
  A run that passed the guard is successful when nothing was caught, that is, when
  nothing was written to the console.
\<close>

fun is_console_error :: "event \<Rightarrow> bool" where
  "is_console_error (console_error msg e) = True"
| "is_console_error _ = False"

definition successful :: "event list \<Rightarrow> bool" where
  "successful evs = (evs \<noteq> [] \<and> filter is_console_error evs = [])"

text \<open>
  The native matrices a trace leaves allocated: every matrix a call returned, less
  every matrix whose \<^verbatim>\<open>delete()\<close> returned.
\<close>

fun track :: "Mat multiset \<Rightarrow> event \<Rightarrow> Mat multiset" where
  "track live (Alloc c (Inr h)) = add_mset h live"
| "track live (Proc (Mat_delete h) (Inr u)) = live - {#h#}"
| "track live _ = live"

definition unreleased :: "event list \<Rightarrow> Mat multiset" where
  "unreleased evs = foldl track {#} evs"

section \<open>Two environments to run the model in\<close>

text \<open>
  The enum values are those of OpenCV 4.5.4. The world of \<open>opencv_ok\<close> is the number of
  matrices allocated so far, which is also the next handle; no call throws.
  \<open>opencv_failing\<close> is the same library for an image on which \<^verbatim>\<open>cv.GaussianBlur\<close>
  and \<^verbatim>\<open>cv.morphologyEx\<close> throw (as they do when the WASM heap cannot hold the result).
\<close>

definition opencv_ok :: "nat env" where
  "opencv_ok =
     \<lparr>BORDER_DEFAULT = 4, COLOR_RGBA2GRAY = 11, CV_8U = 0, THRESH_BINARY = 0,
      THRESH_OTSU = 8, MORPH_RECT = 0, MORPH_OPEN = 2,
      cv_alloc = (\<lambda>c w. (Inr w, Suc w)),
      cv_proc = (\<lambda>c w. (Inr (), w)),
      canvas_toDataURL = (\<lambda>c w. (Inr ''data:image/png;base64,iVBORw0KGgo='', w))\<rparr>"

definition opencv_failing :: "nat env" where
  "opencv_failing =
     opencv_ok\<lparr>cv_proc :=
       (\<lambda>c w. case c of
                 GaussianBlur _ _ _ _ _ _ \<Rightarrow> (Inl (Exn ''abort(OOM)''), w)
               | morphologyEx _ _ _ _ \<Rightarrow> (Inl (Exn ''abort(OOM)''), w)
               | _ \<Rightarrow> (Inr (), w))\<rparr>"

text \<open>
  States in which an image is shown, a technique is chosen and both refs are mounted,
  one for each version.
\<close>

definition ready :: "string \<Rightarrow> app" where
  "ready t =
     \<lparr>selectedImage = Some ''data:image/png;base64,AAAA'', processedImage = None,
      selectedTechnique = t, isProcessing = False,
      imageRef = Some (HTMLImageElement ''data:image/png;base64,AAAA''),
      canvasRef = Some HTMLCanvasElement\<rparr>"

definition ready_dark :: "string \<Rightarrow> app_dark" where
  "ready_dark t =
     \<lparr>selectedImage = Some ''data:image/png;base64,AAAA'', processedImage = None,
      selectedTechnique = t, isProcessing = False,
      imageRef = Some (HTMLImageElement ''data:image/png;base64,AAAA''),
      canvasRef = Some HTMLCanvasElement, isDarkMode = True\<rparr>"

section \<open>Properties\<close>

subsection \<open>Running actions\<close>

lemma switch_dark_eq: "switch_selectedTechnique_dark = switch_selectedTechnique"
  by (intro ext) (simp add: switch_selectedTechnique_dark_def switch_selectedTechnique_def
      TECHNIQUES_def TECHNIQUES_dark_def)

lemma andThen_Inr_iff:
  "andThen f g m = (Inr b, m') \<longleftrightarrow> (\<exists>a m1. f m = (Inr a, m1) \<and> g a m1 = (Inr b, m'))"
  by (auto simp: andThen_def split: prod.splits sum.splits)

lemma andThen_Inl_iff:
  "andThen f g m = (Inl e, m') \<longleftrightarrow>
     f m = (Inl e, m') \<or> (\<exists>a m1. f m = (Inr a, m1) \<and> g a m1 = (Inl e, m'))"
  by (auto simp: andThen_def split: prod.splits sum.splits)

lemma cv_new_iff:
  "cv_new cv c m = (r, m') \<longleftrightarrow>
     (\<exists>w'. cv_alloc cv c (world m) = (r, w') \<and>
           m' = m\<lparr>world := w', trace := trace m @ [Alloc c r]\<rparr>)"
  by (auto simp: cv_new_def split: prod.splits)

lemma cv_do_iff:
  "cv_do cv c m = (r, m') \<longleftrightarrow>
     (\<exists>w'. cv_proc cv c (world m) = (r, w') \<and>
           m' = m\<lparr>world := w', trace := trace m @ [Proc c r]\<rparr>)"
  by (auto simp: cv_do_def split: prod.splits)

lemma canvas_dataURL_iff:
  "canvas_dataURL cv c m = (r, m') \<longleftrightarrow>
     (\<exists>w'. canvas_toDataURL cv c (world m) = (r, w') \<and>
           m' = m\<lparr>world := w', trace := trace m @ [toDataURL c r]\<rparr>)"
  by (auto simp: canvas_dataURL_def split: prod.splits)

lemma set_processedImage_iff:
  "set_processedImage v m = (r, m') \<longleftrightarrow>
     r = Inr () \<and> m' = m\<lparr>react := (react m)\<lparr>processedImage := v\<rparr>,
                          trace := trace m @ [setProcessedImage v]\<rparr>"
  by (auto simp: set_processedImage_def)

lemma lib_calls_simps [simp]:
  "lib_calls [] = []"
  "lib_calls (Alloc c r # evs) = Inl c # lib_calls evs"
  "lib_calls (Proc p r' # evs) = Inr p # lib_calls evs"
  by (simp_all add: lib_calls_def)

lemma opencv_ok_simps [simp]:
  "BORDER_DEFAULT opencv_ok = 4" "COLOR_RGBA2GRAY opencv_ok = 11" "CV_8U opencv_ok = 0"
  "THRESH_BINARY opencv_ok = 0" "THRESH_OTSU opencv_ok = 8" "MORPH_RECT opencv_ok = 0"
  "MORPH_OPEN opencv_ok = 2"
  "cv_alloc opencv_ok c w = (Inr w, Suc w)"
  "cv_proc opencv_ok p w = (Inr (), w)"
  "canvas_toDataURL opencv_ok cn w = (Inr ''data:image/png;base64,iVBORw0KGgo='', w)"
  by (simp_all add: opencv_ok_def)

text \<open>What the switch leaves alone, and the shape of what it adds.\<close>

lemma switch_frame:
  assumes "switch_selectedTechnique cv t img dst m = (r, m')"
  shows "react m' = react m \<and>
         (\<exists>evs. trace m' = trace m @ evs \<and> filter is_console_error evs = [] \<and>
                (\<forall>c d. Proc (imshow c d) (Inr ()) \<notin> set evs) \<and>
                (case r of Inl e \<Rightarrow> evs \<noteq> [] \<and> thrown (last evs) = Some e | Inr _ \<Rightarrow> True))"
  using assms
  apply (intro conjI)
   apply (auto simp: switch_selectedTechnique_def andThen_def cv_do_def cv_new_def
     split: prod.splits sum.splits if_splits)[1]
  apply (rule exI[where x = "drop (length (trace m)) (trace m')"])
  apply (auto simp: switch_selectedTechnique_def andThen_def cv_do_def cv_new_def
     split: prod.splits sum.splits if_splits)
  done


subsection \<open>The try block and the whole of processImage\<close>

lemma try_block_Inr:
  assumes "try_block cv t image_el canvas m = (Inr u, m')"
  shows "\<exists>img w1 dst w2 m2 url.
      cv_alloc cv (imread image_el) (world m) = (Inr img, w1) \<and>
      cv_alloc cv new_Mat w1 = (Inr dst, w2) \<and>
      switch_selectedTechnique cv t img dst
        (m\<lparr>world := w2,
           trace := trace m @ [Alloc (imread image_el) (Inr img), Alloc new_Mat (Inr dst)]\<rparr>)
        = (Inr (), m2) \<and>
      trace m' = trace m2 @
        [Proc (imshow canvas dst) (Inr ()), toDataURL canvas (Inr url),
         setProcessedImage (Some url),
         Proc (Mat_delete img) (Inr ()), Proc (Mat_delete dst) (Inr ())] \<and>
      react m' = (react m2)\<lparr>processedImage := Some url\<rparr>"
  using assms
  by (auto simp: try_block_def andThen_Inr_iff cv_new_iff cv_do_iff canvas_dataURL_iff
      set_processedImage_iff)

lemma try_block_Inl:
  assumes "try_block cv t image_el canvas m = (Inl e, m')"
  shows "\<exists>evs. trace m' = trace m @ evs \<and> evs \<noteq> [] \<and> filter is_console_error evs = [] \<and>
           thrown (last evs) = Some e \<and>
           (react m' = react m \<or>
            (\<exists>url dst img. react m' = (react m)\<lparr>processedImage := Some url\<rparr> \<and>
               Alloc (imread image_el) (Inr img) \<in> set evs \<and>
               Proc (imshow canvas dst) (Inr ()) \<in> set evs \<and>
               toDataURL canvas (Inr url) \<in> set evs))"
  using assms
  apply (simp add: try_block_def andThen_Inl_iff andThen_Inr_iff cv_new_iff cv_do_iff canvas_dataURL_iff
      set_processedImage_iff)
  apply (elim disjE exE conjE)
        apply (fastforce dest!: switch_frame)+
  done


lemma truncate_simps [simp]:
  "selectedImage (app.truncate s) = selectedImage s"
  "processedImage (app.truncate s) = processedImage s"
  "selectedTechnique (app.truncate s) = selectedTechnique s"
  "isProcessing (app.truncate s) = isProcessing s"
  "imageRef (app.truncate s) = imageRef s"
  "canvasRef (app.truncate s) = canvasRef s"
  "app.truncate (s\<lparr>isProcessing := b\<rparr>) = (app.truncate s)\<lparr>isProcessing := b\<rparr>"
  "app.truncate (s\<lparr>processedImage := v\<rparr>) = (app.truncate s)\<lparr>processedImage := v\<rparr>"
  "app.truncate (s\<lparr>isDarkMode := d\<rparr>) = app.truncate s"
  by (simp_all add: app.truncate_def)

lemma without_theme_simps [simp]:
  "react (without_theme m) = app.truncate (react m)"
  "world (without_theme m) = world m"
  "trace (without_theme m) = trace m"
  by (simp_all add: without_theme_def)

lemma cv_new_wt: "cv_new cv c (without_theme m) = apsnd without_theme (cv_new cv c m)"
  by (simp add: cv_new_def without_theme_def split: prod.splits)

lemma cv_do_wt: "cv_do cv c (without_theme m) = apsnd without_theme (cv_do cv c m)"
  by (simp add: cv_do_def without_theme_def split: prod.splits)

lemma canvas_dataURL_wt:
  "canvas_dataURL cv c (without_theme m) = apsnd without_theme (canvas_dataURL cv c m)"
  by (simp add: canvas_dataURL_def without_theme_def split: prod.splits)

lemma set_processedImage_wt:
  "set_processedImage v (without_theme m) = apsnd without_theme (set_processedImage v m)"
  by (simp add: set_processedImage_def without_theme_def)

lemma set_isProcessing_wt:
  "set_isProcessing b (without_theme m) = without_theme (set_isProcessing b m)"
  by (simp add: set_isProcessing_def without_theme_def)

lemma log_error_wt: "log_error msg e (without_theme m) = without_theme (log_error msg e m)"
  by (simp add: log_error_def without_theme_def)

lemma andThen_wt:
  assumes "\<And>m. f1 (without_theme m) = apsnd without_theme (f2 m)"
      and "\<And>a m. g1 a (without_theme m) = apsnd without_theme (g2 a m)"
  shows "andThen f1 g1 (without_theme m) = apsnd without_theme (andThen f2 g2 m)"
  using assms by (simp add: andThen_def split: prod.splits sum.splits)

lemma switch_wt:
  "switch_selectedTechnique cv t img dst (without_theme m) =
     apsnd without_theme (switch_selectedTechnique cv t img dst m)"
  unfolding switch_selectedTechnique_def
  by (simp add: andThen_wt cv_do_wt cv_new_wt)

lemma try_block_wt:
  "try_block cv t image_el canvas (without_theme m) =
     apsnd without_theme (try_block_dark cv t image_el canvas m)"
  unfolding try_block_def try_block_dark_def switch_dark_eq
  by (intro andThen_wt cv_new_wt cv_do_wt canvas_dataURL_wt set_processedImage_wt)
     (simp add: switch_wt)

lemma processImage_dark_sim:
  "without_theme (processImage_dark cv s w) = processImage cv (app.truncate s) w"
proof -
  have m0: "set_isProcessing True \<lparr>react = app.truncate s, world = w, trace = []\<rparr> =
      without_theme (set_isProcessing True \<lparr>react = s, world = w, trace = []\<rparr>)"
    by (simp add: set_isProcessing_def without_theme_def)
  show ?thesis
    by (simp add: processImage_def processImage_dark_def m0 try_block_wt
        set_isProcessing_wt log_error_wt split: prod.splits sum.splits)
qed


lemma processImage_guard:
  assumes "\<not> truthy (selectedImage s) \<or> selectedTechnique s = [] \<or>
           imageRef s = None \<or> canvasRef s = None"
  shows "processImage cv s w = \<lparr>react = s, world = w, trace = []\<rparr>"
  using assms by (auto simp: processImage_def)

lemma processImage_run:
  assumes "truthy (selectedImage s)" "selectedTechnique s \<noteq> []"
          "imageRef s = Some image_el" "canvasRef s = Some canvas"
  shows "(\<exists>u m. try_block cv (selectedTechnique s) image_el canvas
              \<lparr>react = s\<lparr>isProcessing := True\<rparr>, world = w, trace = [setIsProcessing True]\<rparr>
              = (Inr u, m) \<and>
            processImage cv s w =
              m\<lparr>react := (react m)\<lparr>isProcessing := False\<rparr>,
                trace := trace m @ [setIsProcessing False]\<rparr>) \<or>
         (\<exists>e m. try_block cv (selectedTechnique s) image_el canvas
              \<lparr>react = s\<lparr>isProcessing := True\<rparr>, world = w, trace = [setIsProcessing True]\<rparr>
              = (Inl e, m) \<and>
            processImage cv s w =
              m\<lparr>react := (react m)\<lparr>isProcessing := False\<rparr>,
                trace := trace m @ [console_error ''Error processing image:'' e,
                                    setIsProcessing False]\<rparr>)"
  using assms
  by (auto simp: processImage_def set_isProcessing_def log_error_def
      split: prod.splits sum.splits)

lemma processImage_trace_nonempty:
  "trace (processImage cv s w) \<noteq> [] \<longleftrightarrow>
     truthy (selectedImage s) \<and> selectedTechnique s \<noteq> [] \<and>
     imageRef s \<noteq> None \<and> canvasRef s \<noteq> None"
proof (cases "\<not> truthy (selectedImage s) \<or> selectedTechnique s = [] \<or>
           imageRef s = None \<or> canvasRef s = None")
  case True
  then show ?thesis by (auto simp: processImage_guard)
next
  case False
  then obtain image_el canvas where "imageRef s = Some image_el" "canvasRef s = Some canvas"
    by auto
  with False processImage_run [of s image_el canvas cv w] show ?thesis by auto
qed

lemma processImage_success:
  assumes "successful (trace (processImage cv s w))"
  shows "\<exists>image_el canvas img w1 dst w2 m2 evs url.
     imageRef s = Some image_el \<and> canvasRef s = Some canvas \<and>
     truthy (selectedImage s) \<and> selectedTechnique s \<noteq> [] \<and>
     cv_alloc cv (imread image_el) w = (Inr img, w1) \<and>
     cv_alloc cv new_Mat w1 = (Inr dst, w2) \<and>
     switch_selectedTechnique cv (selectedTechnique s) img dst
       \<lparr>react = s\<lparr>isProcessing := True\<rparr>, world = w2,
        trace = [setIsProcessing True, Alloc (imread image_el) (Inr img),
                 Alloc new_Mat (Inr dst)]\<rparr> = (Inr (), m2) \<and>
     trace m2 = [setIsProcessing True, Alloc (imread image_el) (Inr img),
                 Alloc new_Mat (Inr dst)] @ evs \<and>
     trace (processImage cv s w) =
       [setIsProcessing True, Alloc (imread image_el) (Inr img), Alloc new_Mat (Inr dst)] @
       evs @
       [Proc (imshow canvas dst) (Inr ()), toDataURL canvas (Inr url),
        setProcessedImage (Some url),
        Proc (Mat_delete img) (Inr ()), Proc (Mat_delete dst) (Inr ()),
        setIsProcessing False] \<and>
     react (processImage cv s w) = s\<lparr>processedImage := Some url, isProcessing := False\<rparr>"
proof -
  from assms have ne: "trace (processImage cv s w) \<noteq> []" by (simp add: successful_def)
  then obtain image_el canvas where g: "truthy (selectedImage s)" "selectedTechnique s \<noteq> []"
      "imageRef s = Some image_el" "canvasRef s = Some canvas"
    by (auto simp: processImage_trace_nonempty)
  let ?m0 = "\<lparr>react = s\<lparr>isProcessing := True\<rparr>, world = w, trace = [setIsProcessing True]\<rparr>"
  from processImage_run [OF g, of cv w] assms
  obtain u m where tb: "try_block cv (selectedTechnique s) image_el canvas ?m0 = (Inr u, m)"
      and out: "processImage cv s w =
              m\<lparr>react := (react m)\<lparr>isProcessing := False\<rparr>,
                trace := trace m @ [setIsProcessing False]\<rparr>"
    by (auto simp: successful_def)
  from try_block_Inr [OF tb] obtain img w1 dst w2 m2 url where
      a: "cv_alloc cv (imread image_el) w = (Inr img, w1)"
         "cv_alloc cv new_Mat w1 = (Inr dst, w2)"
     and sw: "switch_selectedTechnique cv (selectedTechnique s) img dst
        \<lparr>react = s\<lparr>isProcessing := True\<rparr>, world = w2,
         trace = [setIsProcessing True, Alloc (imread image_el) (Inr img),
                  Alloc new_Mat (Inr dst)]\<rparr> = (Inr (), m2)"
     and tr: "trace m = trace m2 @
        [Proc (imshow canvas dst) (Inr ()), toDataURL canvas (Inr url),
         setProcessedImage (Some url),
         Proc (Mat_delete img) (Inr ()), Proc (Mat_delete dst) (Inr ())]"
     and re: "react m = (react m2)\<lparr>processedImage := Some url\<rparr>"
    by auto
  from switch_frame [OF sw] obtain evs where
      f: "react m2 = s\<lparr>isProcessing := True\<rparr>"
         "trace m2 = [setIsProcessing True, Alloc (imread image_el) (Inr img),
                 Alloc new_Mat (Inr dst)] @ evs"
    by auto
  show ?thesis
    using g a sw f tr re out by (intro exI [of _ image_el] exI [of _ canvas]
       exI [of _ img] exI [of _ w1] exI [of _ dst] exI [of _ w2] exI [of _ m2]
       exI [of _ evs] exI [of _ url]) simp
qed

lemma try_block_Inr_clean:
  assumes "try_block cv t image_el canvas m = (Inr u, m')"
  shows "filter is_console_error (trace m') = filter is_console_error (trace m)"
proof -
  from try_block_Inr [OF assms] obtain img dst w2 m2 url where
      sw: "switch_selectedTechnique cv t img dst
        (m\<lparr>world := w2,
           trace := trace m @ [Alloc (imread image_el) (Inr img), Alloc new_Mat (Inr dst)]\<rparr>)
        = (Inr (), m2)"
     and tr: "trace m' = trace m2 @
        [Proc (imshow canvas dst) (Inr ()), toDataURL canvas (Inr url),
         setProcessedImage (Some url),
         Proc (Mat_delete img) (Inr ()), Proc (Mat_delete dst) (Inr ())]"
    by blast
  from switch_frame [OF sw] obtain evs where
    "trace m2 = (trace m @ [Alloc (imread image_el) (Inr img), Alloc new_Mat (Inr dst)]) @ evs"
    "filter is_console_error evs = []"
    by auto
  with tr show ?thesis by simp
qed

lemma processImage_failure:
  assumes "trace (processImage cv s w) \<noteq> []" "\<not> successful (trace (processImage cv s w))"
  shows "\<exists>e evs. trace (processImage cv s w) =
           setIsProcessing True # evs @
           [console_error ''Error processing image:'' e, setIsProcessing False] \<and>
         evs \<noteq> [] \<and> filter is_console_error evs = [] \<and> thrown (last evs) = Some e \<and>
         (react (processImage cv s w) = s\<lparr>isProcessing := False\<rparr> \<or>
          (\<exists>url dst img. react (processImage cv s w) =
                        s\<lparr>processedImage := Some url, isProcessing := False\<rparr> \<and>
             Alloc (imread (the (imageRef s))) (Inr img) \<in> set evs \<and>
             Proc (imshow (the (canvasRef s)) dst) (Inr ()) \<in> set evs \<and>
             toDataURL (the (canvasRef s)) (Inr url) \<in> set evs))"
proof -
  from assms(1) obtain image_el canvas where g: "truthy (selectedImage s)" "selectedTechnique s \<noteq> []"
      "imageRef s = Some image_el" "canvasRef s = Some canvas"
    by (auto simp: processImage_trace_nonempty)
  let ?m0 = "\<lparr>react = s\<lparr>isProcessing := True\<rparr>, world = w, trace = [setIsProcessing True]\<rparr>"
  from processImage_run [OF g, of cv w] show ?thesis
  proof (elim disjE exE conjE)
    fix u m
    assume tb: "try_block cv (selectedTechnique s) image_el canvas ?m0 = (Inr u, m)"
      and out: "processImage cv s w =
              m\<lparr>react := (react m)\<lparr>isProcessing := False\<rparr>,
                trace := trace m @ [setIsProcessing False]\<rparr>"
    from try_block_Inr_clean [OF tb] out have "successful (trace (processImage cv s w))"
      by (simp add: successful_def)
    with assms(2) show ?thesis by contradiction
  next
    fix e m
    assume tb: "try_block cv (selectedTechnique s) image_el canvas ?m0 = (Inl e, m)"
      and out: "processImage cv s w =
              m\<lparr>react := (react m)\<lparr>isProcessing := False\<rparr>,
                trace := trace m @ [console_error ''Error processing image:'' e,
                                    setIsProcessing False]\<rparr>"
    from try_block_Inl [OF tb] obtain evs where
        e: "trace m = [setIsProcessing True] @ evs" "evs \<noteq> []"
           "filter is_console_error evs = []" "thrown (last evs) = Some e"
        and r: "react m = s\<lparr>isProcessing := True\<rparr> \<or>
            (\<exists>url dst img. react m = s\<lparr>isProcessing := True, processedImage := Some url\<rparr> \<and>
               Alloc (imread image_el) (Inr img) \<in> set evs \<and>
               Proc (imshow canvas dst) (Inr ()) \<in> set evs \<and>
               toDataURL canvas (Inr url) \<in> set evs)"
      by auto
    from r have "react (processImage cv s w) = s\<lparr>isProcessing := False\<rparr> \<or>
          (\<exists>url dst img. react (processImage cv s w) =
                        s\<lparr>processedImage := Some url, isProcessing := False\<rparr> \<and>
             Alloc (imread (the (imageRef s))) (Inr img) \<in> set evs \<and>
             Proc (imshow (the (canvasRef s)) dst) (Inr ()) \<in> set evs \<and>
             toDataURL (the (canvasRef s)) (Inr url) \<in> set evs)"
      using out g by auto
    with e out show ?thesis
      by (intro exI [of _ e] exI [of _ evs]) simp
  qed
qed

lemma processImage_trace_empty:
  assumes "trace (processImage cv s w) = []"
  shows "processImage cv s w = \<lparr>react = s, world = w, trace = []\<rparr>"
proof -
  from assms have "\<not> (truthy (selectedImage s) \<and> selectedTechnique s \<noteq> [] \<and>
     imageRef s \<noteq> None \<and> canvasRef s \<noteq> None)"
    using processImage_trace_nonempty [of cv s w] by blast
  then have "\<not> truthy (selectedImage s) \<or> selectedTechnique s = [] \<or>
           imageRef s = None \<or> canvasRef s = None" by blast
  then show ?thesis by (rule processImage_guard)
qed

lemma processImage_frame:
  "selectedImage (react (processImage cv s w)) = selectedImage s \<and>
   selectedTechnique (react (processImage cv s w)) = selectedTechnique s \<and>
   imageRef (react (processImage cv s w)) = imageRef s \<and>
   canvasRef (react (processImage cv s w)) = canvasRef s"
proof (cases "trace (processImage cv s w) = []")
  case True
  then have "processImage cv s w = \<lparr>react = s, world = w, trace = []\<rparr>"
    by (rule processImage_trace_empty)
  then show ?thesis by simp
next
  case False
  show ?thesis
  proof (cases "successful (trace (processImage cv s w))")
    case True
    from processImage_success [OF True] show ?thesis by auto
  next
    case bad: False
    from processImage_failure [OF False bad] show ?thesis by auto
  qed
qed

lemma processImage_resets:
  assumes "trace (processImage cv s w) \<noteq> []"
  shows "isProcessing (react (processImage cv s w)) = False \<and>
         last (trace (processImage cv s w)) = setIsProcessing False"
proof (cases "successful (trace (processImage cv s w))")
  case True
  from processImage_success [OF True] show ?thesis by auto
next
  case False
  from processImage_failure [OF assms False] show ?thesis by auto
qed

lemma reachable_idle: "reachable cv s \<Longrightarrow> \<not> isProcessing s"
proof (induction rule: reachable.induct)
  case mount
  show ?case by (simp add: commit_def initial_def)
next
  case (pick s files s')
  then show ?case
    by (auto simp: commit_def fileInput_onChange_def handleImageUpload_def
        split: option.splits list.splits)
next
  case (drop s files s')
  then show ?case
    by (auto simp: commit_def handleDrop_def handleImageUpload_def
        split: option.splits list.splits)
next
  case (radio s v c)
  then show ?case by (simp add: commit_def radio_onChange_def)
next
  case (process s w)
  show ?case
  proof (cases "trace (processImage cv s w) = []")
    case True
    then have "processImage cv s w = \<lparr>react = s, world = w, trace = []\<rparr>"
      by (rule processImage_trace_empty)
    with process show ?thesis by (simp add: commit_def)
  next
    case False
    from processImage_resets [OF False] show ?thesis by (simp add: commit_def)
  qed
qed

lemma try_block_dark_theme:
  assumes "try_block_dark cv t image_el canvas m = (r, m')"
  shows "isDarkMode (react m') = isDarkMode (react m)"
proof (cases r)
  case (Inl e)
  with assms show ?thesis
    by (auto simp: try_block_dark_def switch_dark_eq andThen_Inl_iff andThen_Inr_iff
        cv_new_iff cv_do_iff canvas_dataURL_iff set_processedImage_iff dest!: switch_frame)
next
  case (Inr u)
  with assms show ?thesis
    by (auto simp: try_block_dark_def switch_dark_eq andThen_Inr_iff
        cv_new_iff cv_do_iff canvas_dataURL_iff set_processedImage_iff dest!: switch_frame)
qed

lemma processImage_dark_theme:
  "isDarkMode (react (processImage_dark cv s w)) = isDarkMode s"
  by (auto simp: processImage_dark_def set_isProcessing_def log_error_def
      split: prod.splits sum.splits dest!: try_block_dark_theme)

lemma app_dark_eqI:
  fixes a b :: app_dark
  assumes "app.truncate a = app.truncate b" "isDarkMode a = isDarkMode b"
  shows "a = b"
  using assms by (cases a, cases b) (simp add: app.truncate_def)

lemma unreleased_simps [simp]:
  "unreleased [] = {#}"
  "unreleased (evs @ [e]) = track (unreleased evs) e"
  by (simp_all add: unreleased_def)

lemma unreleased_eval:
  "unreleased evs = foldl track {#} evs"
  by (simp add: unreleased_def)

subsection \<open>Reachable states\<close>

lemma commit_simps [simp]:
  "selectedImage (commit s) = selectedImage s"
  "processedImage (commit s) = processedImage s"
  "selectedTechnique (commit s) = selectedTechnique s"
  "isProcessing (commit s) = isProcessing s"
  "imageRef (commit s) =
     (if truthy (selectedImage s) then Some (HTMLImageElement (the (selectedImage s))) else None)"
  "canvasRef (commit s) = Some HTMLCanvasElement"
  by (simp_all add: commit_def App_render_def)

lemma upload_cases:
  assumes "handleImageUpload file s = Inr s'"
  shows "s' = s \<or> (\<exists>url. s' = s\<lparr>selectedImage := Some url, processedImage := None\<rparr>)"
  using assms by (auto simp: handleImageUpload_def split: option.splits)

lemma pick_cases:
  assumes "fileInput_onChange files s = Inr s'"
  shows "s' = s \<or> (\<exists>url. s' = s\<lparr>selectedImage := Some url, processedImage := None\<rparr>)"
  using assms by (auto simp: fileInput_onChange_def split: option.splits dest: upload_cases)

lemma drop_cases:
  assumes "handleDrop files s = Inr s'"
  shows "s' = s \<or> (\<exists>url. s' = s\<lparr>selectedImage := Some url, processedImage := None\<rparr>)"
  using assms by (auto simp: handleDrop_def split: option.splits list.splits dest: upload_cases)

lemma radios_values:
  "(v, c) \<in> set (radios (App_render s)) \<Longrightarrow>
     v \<in> {''Gaussian Blur'', ''Median Filter'', ''Canny Edge Detection'',
          ''Laplacian Spatial Filter'', ''Binary Thresholding'', ''Otsu's Thresholding'',
          ''Morphological Cleaning''}"
  by (auto simp: App_render_def Object_values_filtering_def Object_values_segmentation_def
      TECHNIQUES_def)

lemma reachable_technique:
  "reachable cv s \<Longrightarrow>
     selectedTechnique s \<in> {[], ''Gaussian Blur'', ''Median Filter'', ''Canny Edge Detection'',
          ''Laplacian Spatial Filter'', ''Binary Thresholding'', ''Otsu's Thresholding'',
          ''Morphological Cleaning''}"
proof (induction rule: reachable.induct)
  case mount
  show ?case by (simp add: initial_def)
next
  case (pick s files s')
  from pick_cases [OF pick.hyps(2)] pick.IH show ?case by auto
next
  case (drop s files s')
  from drop_cases [OF drop.hyps(2)] drop.IH show ?case by auto
next
  case (radio s v c)
  from radios_values [OF radio.hyps(2)] show ?case by (auto simp: radio_onChange_def)
next
  case (process s w)
  with processImage_frame [of cv s w] show ?case by simp
qed

lemma reachable_refs:
  assumes "reachable cv s"
  shows "imageRef s =
           (if truthy (selectedImage s) then Some (HTMLImageElement (the (selectedImage s)))
            else None) \<and>
         canvasRef s = Some HTMLCanvasElement"
  using assms by (cases rule: reachable.cases) simp_all

lemma switch_runs_a_case:
  assumes "t \<in> {''Gaussian Blur'', ''Median Filter'', ''Canny Edge Detection'',
          ''Laplacian Spatial Filter'', ''Binary Thresholding'', ''Otsu's Thresholding'',
          ''Morphological Cleaning''}"
  shows "trace (snd (switch_selectedTechnique cv t img dst m)) \<noteq> trace m"
proof -
  obtain r m' where run: "switch_selectedTechnique cv t img dst m = (r, m')"
    by (cases "switch_selectedTechnique cv t img dst m")
  from assms have "t = ''Gaussian Blur'' \<or> t = ''Median Filter'' \<or> t = ''Canny Edge Detection'' \<or>
     t = ''Laplacian Spatial Filter'' \<or> t = ''Binary Thresholding'' \<or> t = ''Otsu's Thresholding'' \<or>
     t = ''Morphological Cleaning''" by simp
  then have "trace m' \<noteq> trace m"
    using run
    apply (elim disjE)
    apply (auto simp: switch_selectedTechnique_def TECHNIQUES_def andThen_def cv_do_def cv_new_def
      split: prod.splits sum.splits)
    done
  with run show ?thesis by simp
qed

lemma switch_default:
  assumes "t \<notin> {''Gaussian Blur'', ''Median Filter'', ''Canny Edge Detection'',
          ''Laplacian Spatial Filter'', ''Binary Thresholding'', ''Otsu's Thresholding'',
          ''Morphological Cleaning''}"
  shows "switch_selectedTechnique cv t img dst m = (Inr (), m)"
  using assms by (simp add: switch_selectedTechnique_def TECHNIQUES_def)

lemma truthy_Some: "truthy v \<Longrightarrow> \<exists>src. v = Some src \<and> src \<noteq> []"
  by (cases v) simp_all

lemma reachable_provenance:
  assumes "reachable cv s" "processedImage s = Some u"
  shows "\<exists>src s0 w0 img c.
           selectedImage s = Some src \<and> reachable cv s0 \<and> selectedImage s0 = Some src \<and>
           Alloc (imread (HTMLImageElement src)) (Inr img) \<in> set (trace (processImage cv s0 w0)) \<and>
           toDataURL c (Inr u) \<in> set (trace (processImage cv s0 w0))"
  using assms
proof (induction rule: reachable.induct)
  case mount
  then show ?case by (simp add: initial_def)
next
  case (pick s files s')
  from pick_cases [OF pick.hyps(2)] pick.prems pick.IH show ?case by auto
next
  case (drop s files s')
  from drop_cases [OF drop.hyps(2)] drop.prems drop.IH show ?case by auto
next
  case (radio s v c)
  then show ?case by (simp add: radio_onChange_def)
next
  case (process s w)
  let ?out = "processImage cv s w"
  from process.prems have pu: "processedImage (react ?out) = Some u" by simp
  have fresh: ?case
    if re: "react ?out = s\<lparr>processedImage := Some url, isProcessing := False\<rparr>"
    and rd: "Alloc (imread (the (imageRef s))) (Inr img) \<in> set (trace ?out)"
    and du: "toDataURL c (Inr url) \<in> set (trace ?out)"
    and ne: "trace ?out \<noteq> []"
    for url img c
  proof -
    from ne have "truthy (selectedImage s)" by (simp add: processImage_trace_nonempty)
    then obtain src where src: "selectedImage s = Some src" "src \<noteq> []"
      by (auto dest: truthy_Some)
    with reachable_refs [OF process.hyps(1)]
    have "the (imageRef s) = HTMLImageElement src" by simp
    with rd have rd': "Alloc (imread (HTMLImageElement src)) (Inr img) \<in> set (trace ?out)"
      by simp
    from pu re have "url = u" by simp
    with du have du': "toDataURL c (Inr u) \<in> set (trace ?out)" by simp
    from src re have "selectedImage (commit (react ?out)) = Some src" by simp
    with process.hyps(1) src(1) rd' du' show ?thesis by blast
  qed
  show ?case
  proof (cases "trace ?out = []")
    case True
    then have "?out = \<lparr>react = s, world = w, trace = []\<rparr>" by (rule processImage_trace_empty)
    with process.prems process.IH show ?thesis by simp
  next
    case ne: False
    show ?thesis
    proof (cases "successful (trace ?out)")
      case True
      from processImage_success [OF True] obtain image_el canvas img dst evs url where
        ir: "imageRef s = Some image_el"
        and tr: "trace ?out =
         [setIsProcessing True, Alloc (imread image_el) (Inr img), Alloc new_Mat (Inr dst)] @
         evs @
         [Proc (imshow canvas dst) (Inr ()), toDataURL canvas (Inr url),
          setProcessedImage (Some url),
          Proc (Mat_delete img) (Inr ()), Proc (Mat_delete dst) (Inr ()),
          setIsProcessing False]"
        and re: "react ?out = s\<lparr>processedImage := Some url, isProcessing := False\<rparr>"
        by blast
      from ir tr have rd: "Alloc (imread (the (imageRef s))) (Inr img) \<in> set (trace ?out)"
        by simp
      from tr have du: "toDataURL canvas (Inr url) \<in> set (trace ?out)" by simp
      from re rd du ne show ?thesis by (rule fresh)
    next
      case bad: False
      from processImage_failure [OF ne bad] obtain e evs where
        tr: "trace ?out = setIsProcessing True # evs @
           [console_error ''Error processing image:'' e, setIsProcessing False]"
        and alt: "react ?out = s\<lparr>isProcessing := False\<rparr> \<or>
          (\<exists>url dst img. react ?out = s\<lparr>processedImage := Some url, isProcessing := False\<rparr> \<and>
             Alloc (imread (the (imageRef s))) (Inr img) \<in> set evs \<and>
             Proc (imshow (the (canvasRef s)) dst) (Inr ()) \<in> set evs \<and>
             toDataURL (the (canvasRef s)) (Inr url) \<in> set evs)"
        by blast
      from alt show ?thesis
      proof
        assume "react ?out = s\<lparr>isProcessing := False\<rparr>"
        with process.prems process.IH show ?thesis by simp
      next
        assume "\<exists>url dst img. react ?out = s\<lparr>processedImage := Some url, isProcessing := False\<rparr> \<and>
             Alloc (imread (the (imageRef s))) (Inr img) \<in> set evs \<and>
             Proc (imshow (the (canvasRef s)) dst) (Inr ()) \<in> set evs \<and>
             toDataURL (the (canvasRef s)) (Inr url) \<in> set evs"
        then obtain url img where
          re: "react ?out = s\<lparr>processedImage := Some url, isProcessing := False\<rparr>"
          and "Alloc (imread (the (imageRef s))) (Inr img) \<in> set evs"
          and "toDataURL (the (canvasRef s)) (Inr url) \<in> set evs"
          by blast
        with tr have rd: "Alloc (imread (the (imageRef s))) (Inr img) \<in> set (trace ?out)"
          and du: "toDataURL (the (canvasRef s)) (Inr url) \<in> set (trace ?out)"
          by simp_all
        from re rd du ne show ?thesis by (rule fresh)
      qed
    qed
  qed
qed

subsection \<open>Native buffers\<close>

text \<open>
  Which runs leave a matrix allocated: a successful run leaves none; a run that passed
  the guard and caught an exception leaves none only when \<^verbatim>\<open>cv.imread\<close> itself threw,
  before anything was allocated.
\<close>

lemma switch_track:
  assumes "switch_selectedTechnique cv t img dst m = (r, m')"
  shows "\<exists>evs. trace m' = trace m @ evs \<and>
           (\<forall>live. case r of Inr _ \<Rightarrow> foldl track live evs = live
                    | Inl _ \<Rightarrow> live \<subseteq># foldl track live evs)"
  using assms
  apply (intro exI[where x = "drop (length (trace m)) (trace m')"])
  apply (auto simp: switch_selectedTechnique_def andThen_def cv_do_def cv_new_def
     split: prod.splits sum.splits if_splits)
  done

lemma successful_run_releases_all:
  assumes "successful (trace (processImage cv s w))"
  shows "unreleased (trace (processImage cv s w)) = {#}"
proof -
  from processImage_success [OF assms] obtain image_el canvas img dst w2 m2 evs url where
     sw: "switch_selectedTechnique cv (selectedTechnique s) img dst
       \<lparr>react = s\<lparr>isProcessing := True\<rparr>, world = w2,
        trace = [setIsProcessing True, Alloc (imread image_el) (Inr img),
                 Alloc new_Mat (Inr dst)]\<rparr> = (Inr (), m2)"
     and m2: "trace m2 = [setIsProcessing True, Alloc (imread image_el) (Inr img),
                 Alloc new_Mat (Inr dst)] @ evs"
     and tr: "trace (processImage cv s w) =
       [setIsProcessing True, Alloc (imread image_el) (Inr img), Alloc new_Mat (Inr dst)] @
       evs @
       [Proc (imshow canvas dst) (Inr ()), toDataURL canvas (Inr url),
        setProcessedImage (Some url),
        Proc (Mat_delete img) (Inr ()), Proc (Mat_delete dst) (Inr ()),
        setIsProcessing False]"
    by blast
  from switch_track [OF sw] m2
  have "foldl track {#dst, img#} evs = {#dst, img#}" by auto
  then show ?thesis unfolding tr by (simp add: unreleased_def)
qed

lemma nonempty_superset: "add_mset a M \<subseteq># N \<Longrightarrow> N \<noteq> {#}"
  by auto

lemma try_block_Inl_leak:
  assumes "try_block cv t image_el canvas m = (Inl e, m')"
  shows "\<exists>evs. trace m' = trace m @ evs \<and>
           (evs = [Alloc (imread image_el) (Inl e)] \<or> (\<forall>live. foldl track live evs \<noteq> {#}))"
  using assms
  apply (simp add: try_block_def andThen_Inl_iff andThen_Inr_iff cv_new_iff cv_do_iff
      canvas_dataURL_iff set_processedImage_iff)
  apply (elim disjE exE conjE)
        apply simp
       apply simp
      apply (drule switch_track, fastforce dest: nonempty_superset)
     apply (drule switch_track, fastforce)
    apply (drule switch_track, fastforce)
   apply (drule switch_track, fastforce)
  apply (drule switch_track, fastforce)
  done

lemma failed_run_leaks:
  assumes "trace (processImage cv s w) \<noteq> []" "\<not> successful (trace (processImage cv s w))"
  shows "unreleased (trace (processImage cv s w)) = {#} \<longleftrightarrow>
         (\<exists>e. trace (processImage cv s w) =
            [setIsProcessing True, Alloc (imread (the (imageRef s))) (Inl e),
             console_error ''Error processing image:'' e, setIsProcessing False])"
proof -
  from assms(1) obtain image_el canvas where g: "truthy (selectedImage s)" "selectedTechnique s \<noteq> []"
      "imageRef s = Some image_el" "canvasRef s = Some canvas"
    by (auto simp: processImage_trace_nonempty)
  let ?m0 = "\<lparr>react = s\<lparr>isProcessing := True\<rparr>, world = w, trace = [setIsProcessing True]\<rparr>"
  from processImage_run [OF g, of cv w] show ?thesis
  proof (elim disjE exE conjE)
    fix u m
    assume tb: "try_block cv (selectedTechnique s) image_el canvas ?m0 = (Inr u, m)"
      and out: "processImage cv s w =
              m\<lparr>react := (react m)\<lparr>isProcessing := False\<rparr>,
                trace := trace m @ [setIsProcessing False]\<rparr>"
    from try_block_Inr_clean [OF tb] out have "successful (trace (processImage cv s w))"
      by (simp add: successful_def)
    with assms(2) show ?thesis by contradiction
  next
    fix e m
    assume tb: "try_block cv (selectedTechnique s) image_el canvas ?m0 = (Inl e, m)"
      and out: "processImage cv s w =
              m\<lparr>react := (react m)\<lparr>isProcessing := False\<rparr>,
                trace := trace m @ [console_error ''Error processing image:'' e,
                                    setIsProcessing False]\<rparr>"
    from try_block_Inl_leak [OF tb] obtain evs where
      tr: "trace m = [setIsProcessing True] @ evs"
      and alt: "evs = [Alloc (imread image_el) (Inl e)] \<or> (\<forall>live. foldl track live evs \<noteq> {#})"
      by auto
    from alt show ?thesis
    proof
      assume "evs = [Alloc (imread image_el) (Inl e)]"
      with tr out g show ?thesis by (simp add: unreleased_def)
    next
      assume leak: "\<forall>live. foldl track live evs \<noteq> {#}"
      then have ne: "evs \<noteq> [Alloc (imread image_el) (Inl e')]" for e'
        by (auto dest: spec [where x = "{#}"])
      from leak tr out have "unreleased (trace (processImage cv s w)) \<noteq> {#}"
        by (simp add: unreleased_def)
      moreover from ne tr out g have "\<not> (\<exists>e. trace (processImage cv s w) =
            [setIsProcessing True, Alloc (imread (the (imageRef s))) (Inl e),
             console_error ''Error processing image:'' e, setIsProcessing False])"
        by auto
      ultimately show ?thesis by simp
    qed
  qed
qed

subsection \<open>Evaluating the model in the two environments\<close>

lemma opencv_failing_simps [simp]:
  "BORDER_DEFAULT opencv_failing = 4" "COLOR_RGBA2GRAY opencv_failing = 11"
  "CV_8U opencv_failing = 0" "THRESH_BINARY opencv_failing = 0"
  "THRESH_OTSU opencv_failing = 8" "MORPH_RECT opencv_failing = 0"
  "MORPH_OPEN opencv_failing = 2"
  "cv_alloc opencv_failing c w = (Inr w, Suc w)"
  "cv_proc opencv_failing p w =
     (case p of GaussianBlur _ _ _ _ _ _ \<Rightarrow> (Inl (Exn ''abort(OOM)''), w)
              | morphologyEx _ _ _ _ \<Rightarrow> (Inl (Exn ''abort(OOM)''), w)
              | _ \<Rightarrow> (Inr (), w))"
  "canvas_toDataURL opencv_failing cn w = (Inr ''data:image/png;base64,iVBORw0KGgo='', w)"
  by (simp_all add: opencv_failing_def opencv_ok_def)

lemmas run_defs =
  processImage_def try_block_def switch_selectedTechnique_def TECHNIQUES_def andThen_def
  cv_new_def cv_do_def canvas_dataURL_def set_processedImage_def set_isProcessing_def
  log_error_def

lemma run_canny_ok:
  "processImage opencv_ok (ready ''Canny Edge Detection'') 0 =
     \<lparr>react = (ready ''Canny Edge Detection'')
                \<lparr>processedImage := Some ''data:image/png;base64,iVBORw0KGgo=''\<rparr>,
      world = 2,
      trace =
        [setIsProcessing True,
         Alloc (imread (HTMLImageElement ''data:image/png;base64,AAAA'')) (Inr 0),
         Alloc new_Mat (Inr 1),
         Proc (cvtColor 0 0 11) (Inr ()),
         Proc (Canny 0 1 50 150 3 False) (Inr ()),
         Proc (imshow HTMLCanvasElement 1) (Inr ()),
         toDataURL HTMLCanvasElement (Inr ''data:image/png;base64,iVBORw0KGgo=''),
         setProcessedImage (Some ''data:image/png;base64,iVBORw0KGgo=''),
         Proc (Mat_delete 0) (Inr ()),
         Proc (Mat_delete 1) (Inr ()),
         setIsProcessing False]\<rparr>"
  by (simp add: run_defs ready_def)

lemma run_gaussian_failing:
  "processImage opencv_failing (ready ''Gaussian Blur'') 0 =
     \<lparr>react = ready ''Gaussian Blur'',
      world = 2,
      trace =
        [setIsProcessing True,
         Alloc (imread (HTMLImageElement ''data:image/png;base64,AAAA'')) (Inr 0),
         Alloc new_Mat (Inr 1),
         Proc (GaussianBlur 0 1 (Size 5 5) 0 0 4) (Inl (Exn ''abort(OOM)'')),
         console_error ''Error processing image:'' (Exn ''abort(OOM)''),
         setIsProcessing False]\<rparr>"
  by (simp add: run_defs ready_def)

lemma run_morphological_failing:
  "processImage opencv_failing (ready ''Morphological Cleaning'') 0 =
     \<lparr>react = ready ''Morphological Cleaning'',
      world = 3,
      trace =
        [setIsProcessing True,
         Alloc (imread (HTMLImageElement ''data:image/png;base64,AAAA'')) (Inr 0),
         Alloc new_Mat (Inr 1),
         Proc (cvtColor 0 0 11) (Inr ()),
         Proc (threshold 0 1 127 255 0) (Inr ()),
         Alloc (getStructuringElement 0 (Size 5 5)) (Inr 2),
         Proc (morphologyEx 1 1 2 2) (Inl (Exn ''abort(OOM)'')),
         console_error ''Error processing image:'' (Exn ''abort(OOM)''),
         setIsProcessing False]\<rparr>"
  by (simp add: run_defs ready_def)

lemma either_version:
  assumes "out = processImage cv s w \<or>
           out = without_theme (processImage_dark cv s2 w) \<and> s = app.truncate s2"
  shows "out = processImage cv s w"
  using assms by (auto simp: processImage_dark_sim)

lemma run_median_ok:
  "processImage opencv_ok (ready ''Median Filter'') 0 =
     \<lparr>react = (ready ''Median Filter'')
                \<lparr>processedImage := Some ''data:image/png;base64,iVBORw0KGgo=''\<rparr>,
      world = 2,
      trace =
        [setIsProcessing True,
         Alloc (imread (HTMLImageElement ''data:image/png;base64,AAAA'')) (Inr 0),
         Alloc new_Mat (Inr 1),
         Proc (medianBlur 0 1 5) (Inr ()),
         Proc (imshow HTMLCanvasElement 1) (Inr ()),
         toDataURL HTMLCanvasElement (Inr ''data:image/png;base64,iVBORw0KGgo=''),
         setProcessedImage (Some ''data:image/png;base64,iVBORw0KGgo=''),
         Proc (Mat_delete 0) (Inr ()),
         Proc (Mat_delete 1) (Inr ()),
         setIsProcessing False]\<rparr>"
  by (simp add: run_defs ready_def)

lemma truncate_ready_dark: "app.truncate (ready_dark t) = ready t"
  by (simp add: ready_dark_def ready_def app.truncate_def)

lemma run_otsu_ok:
  "processImage opencv_ok (ready ''Otsu's Thresholding'') 0 =
     \<lparr>react = (ready ''Otsu's Thresholding'')
                \<lparr>processedImage := Some ''data:image/png;base64,iVBORw0KGgo=''\<rparr>,
      world = 2,
      trace =
        [setIsProcessing True,
         Alloc (imread (HTMLImageElement ''data:image/png;base64,AAAA'')) (Inr 0),
         Alloc new_Mat (Inr 1),
         Proc (cvtColor 0 0 11) (Inr ()),
         Proc (threshold 0 1 0 255 8) (Inr ()),
         Proc (imshow HTMLCanvasElement 1) (Inr ()),
         toDataURL HTMLCanvasElement (Inr ''data:image/png;base64,iVBORw0KGgo=''),
         setProcessedImage (Some ''data:image/png;base64,iVBORw0KGgo=''),
         Proc (Mat_delete 0) (Inr ()),
         Proc (Mat_delete 1) (Inr ()),
         setIsProcessing False]\<rparr>"
  by (simp add: run_defs ready_def)

lemma reachable_ready:
  assumes "t \<in> set (Object_values_filtering (FILTERING TECHNIQUES) @
                     Object_values_segmentation (SEGMENTATION TECHNIQUES))"
  shows "reachable cv (ready t)"
proof -
  let ?f = "File (Some ''data:image/png;base64,AAAA'')"
  let ?s1 = "(commit initial)\<lparr>selectedImage := Some ''data:image/png;base64,AAAA'',
                               processedImage := None\<rparr>"
  have up: "fileInput_onChange (Some [?f]) (commit initial) = Inr ?s1"
    by (simp add: fileInput_onChange_def handleImageUpload_def)
  have r1: "reachable cv (commit ?s1)"
    by (rule reachable.pick [OF reachable.mount up])
  from assms have "(t, selectedTechnique (commit ?s1) = t) \<in> set (radios (App_render (commit ?s1)))"
    by (auto simp: App_render_def)
  from reachable.radio [OF r1 this]
  have "reachable cv (commit (radio_onChange t (commit ?s1)))" .
  moreover have "commit (radio_onChange t (commit ?s1)) = ready t"
    by (simp add: commit_def radio_onChange_def App_render_def initial_def ready_def)
  ultimately show ?thesis by simp
qed

lemma reachable_after_median:
  "reachable opencv_ok
     ((ready ''Median Filter'')\<lparr>processedImage := Some ''data:image/png;base64,iVBORw0KGgo=''\<rparr>)"
proof -
  have r: "reachable opencv_ok (ready ''Median Filter'')"
    by (rule reachable_ready)
       (simp add: Object_values_filtering_def Object_values_segmentation_def TECHNIQUES_def)
  have en: "\<not> process_disabled (App_render (ready ''Median Filter''))"
    by (simp add: App_render_def ready_def)
  from reachable.process [OF r en, of 0]
  show ?thesis unfolding run_median_ok by (simp add: commit_def App_render_def ready_def)
qed

subsection \<open>The claims\<close>

text \<open>
  Claim C1. Whenever the switch of \<^verbatim>\<open>processImage\<close> runs (in either version) for one of
  the seven technique names, the library calls it performs are a fixed list that depends
  only on the name and on the handles of the source and destination matrices, never on
  the world (hence not on the image): Gaussian Blur is \<^verbatim>\<open>GaussianBlur\<close> with a 5x5 kernel
  and sigma 0; Median Filter is \<^verbatim>\<open>medianBlur\<close> with size 5; Canny Edge Detection is
  \<^verbatim>\<open>cvtColor\<close> to gray, then \<^verbatim>\<open>Canny\<close> with thresholds 50 and 150; Laplacian Spatial Filter
  is \<^verbatim>\<open>cvtColor\<close>, then \<^verbatim>\<open>Laplacian\<close> with depth \<^verbatim>\<open>CV_8U\<close>; Binary Thresholding is
  \<^verbatim>\<open>cvtColor\<close>, then \<^verbatim>\<open>threshold(127, 255, THRESH_BINARY)\<close>; Otsu's Thresholding is
  \<^verbatim>\<open>cvtColor\<close>, then \<^verbatim>\<open>threshold(0, 255, THRESH_BINARY + THRESH_OTSU)\<close>; Morphological
  Cleaning is \<^verbatim>\<open>cvtColor\<close>, \<^verbatim>\<open>threshold(127, 255, THRESH_BINARY)\<close>,
  \<^verbatim>\<open>getStructuringElement(MORPH_RECT, 5x5)\<close>, \<^verbatim>\<open>morphologyEx\<close> with \<^verbatim>\<open>MORPH_OPEN\<close> and the
  kernel just made, followed by the release of that kernel. When the switch completes,
  the calls made are the whole list and each of them returned. When the switch throws,
  at least one call was made, the calls are the list cut after the first call that
  threw, every call before it returned, and the exception of the switch is the one that
  call threw. The switch records nothing but library calls. So each technique is one to
  four vision calls.
\<close>

theorem C1_dispatch_fixed_calls:
  assumes "sw = switch_selectedTechnique \<or> sw = switch_selectedTechnique_dark"
      and "sw cv t img dst m = (r, m')"
  shows "\<exists>evs. trace m' = trace m @ evs \<and>
    (t = ''Gaussian Blur'' \<longrightarrow>
       performed r evs [Inr (GaussianBlur img dst (Size 5 5) 0 0 (BORDER_DEFAULT cv))]) \<and>
    (t = ''Median Filter'' \<longrightarrow>
       performed r evs [Inr (medianBlur img dst 5)]) \<and>
    (t = ''Canny Edge Detection'' \<longrightarrow>
       performed r evs [Inr (cvtColor img img (COLOR_RGBA2GRAY cv)),
                        Inr (Canny img dst 50 150 3 False)]) \<and>
    (t = ''Laplacian Spatial Filter'' \<longrightarrow>
       performed r evs [Inr (cvtColor img img (COLOR_RGBA2GRAY cv)),
                        Inr (Laplacian img dst (CV_8U cv) 1 1 0 (BORDER_DEFAULT cv))]) \<and>
    (t = ''Binary Thresholding'' \<longrightarrow>
       performed r evs [Inr (cvtColor img img (COLOR_RGBA2GRAY cv)),
                        Inr (threshold img dst 127 255 (THRESH_BINARY cv))]) \<and>
    (t = ''Otsu's Thresholding'' \<longrightarrow>
       performed r evs [Inr (cvtColor img img (COLOR_RGBA2GRAY cv)),
                        Inr (threshold img dst 0 255 (THRESH_BINARY cv + THRESH_OTSU cv))]) \<and>
    (t = ''Morphological Cleaning'' \<longrightarrow>
       (\<exists>kernel. performed r evs
          [Inr (cvtColor img img (COLOR_RGBA2GRAY cv)),
           Inr (threshold img dst 127 255 (THRESH_BINARY cv)),
           Inl (getStructuringElement (MORPH_RECT cv) (Size 5 5)),
           Inr (morphologyEx dst dst (MORPH_OPEN cv) kernel),
           Inr (Mat_delete kernel)] \<and>
         (\<forall>k. Alloc (getStructuringElement (MORPH_RECT cv) (Size 5 5)) (Inr k) \<in> set evs
               \<longrightarrow> k = kernel)))"
  using assms
  apply (simp add: switch_dark_eq)
  apply (rule exI[where x = "drop (length (trace m)) (trace m')"])
  apply (auto simp: switch_selectedTechnique_def TECHNIQUES_def performed_def andThen_def cv_do_def cv_new_def
     split: prod.splits sum.splits if_splits)
  done


theorem C1_dispatch_fixed_calls_witness:
  "switch_selectedTechnique opencv_ok ''Morphological Cleaning'' 0 1
     \<lparr>react = (), world = 2, trace = []\<rparr> =
     (Inr (), \<lparr>react = (), world = 3, trace =
        [Proc (cvtColor 0 0 11) (Inr ()), Proc (threshold 0 1 127 255 0) (Inr ()),
         Alloc (getStructuringElement 0 (Size 5 5)) (Inr 2),
         Proc (morphologyEx 1 1 2 2) (Inr ()), Proc (Mat_delete 2) (Inr ())]\<rparr>) \<and>
   performed (Inr ())
     (trace (snd (switch_selectedTechnique opencv_ok ''Morphological Cleaning'' 0 1
        \<lparr>react = (), world = 2, trace = []\<rparr>)))
     [Inr (cvtColor 0 0 11), Inr (threshold 0 1 127 255 0),
      Inl (getStructuringElement 0 (Size 5 5)),
      Inr (morphologyEx 1 1 2 2), Inr (Mat_delete 2)] \<and>
   switch_selectedTechnique_dark opencv_failing ''Morphological Cleaning'' 0 1
     \<lparr>react = (), world = 2, trace = []\<rparr> =
     (Inl (Exn ''abort(OOM)''), \<lparr>react = (), world = 3, trace =
        [Proc (cvtColor 0 0 11) (Inr ()), Proc (threshold 0 1 127 255 0) (Inr ()),
         Alloc (getStructuringElement 0 (Size 5 5)) (Inr 2),
         Proc (morphologyEx 1 1 2 2) (Inl (Exn ''abort(OOM)''))]\<rparr>) \<and>
   performed (Inl (Exn ''abort(OOM)''))
     (trace (snd (switch_selectedTechnique_dark opencv_failing ''Morphological Cleaning'' 0 1
        \<lparr>react = (), world = 2, trace = []\<rparr>)))
     [Inr (cvtColor 0 0 11), Inr (threshold 0 1 127 255 0),
      Inl (getStructuringElement 0 (Size 5 5)),
      Inr (morphologyEx 1 1 2 2), Inr (Mat_delete 2)]"
proof -
  let ?m = "\<lparr>react = (), world = 2::nat, trace = []\<rparr>"
  let ?ok = "[Proc (cvtColor 0 0 11) (Inr ()), Proc (threshold 0 1 127 255 0) (Inr ()),
            Alloc (getStructuringElement 0 (Size 5 5)) (Inr 2),
            Proc (morphologyEx 1 1 2 2) (Inr ()), Proc (Mat_delete 2) (Inr ())]"
  let ?bad = "[Proc (cvtColor 0 0 11) (Inr ()), Proc (threshold 0 1 127 255 0) (Inr ()),
            Alloc (getStructuringElement 0 (Size 5 5)) (Inr 2),
            Proc (morphologyEx 1 1 2 2) (Inl (Exn ''abort(OOM)''))]"
  have ok: "switch_selectedTechnique opencv_ok ''Morphological Cleaning'' 0 1 ?m =
      (Inr (), \<lparr>react = (), world = 3, trace = ?ok\<rparr>)"
    by (simp add: switch_selectedTechnique_def TECHNIQUES_def andThen_def cv_do_def cv_new_def)
  have bad: "switch_selectedTechnique_dark opencv_failing ''Morphological Cleaning'' 0 1 ?m =
      (Inl (Exn ''abort(OOM)''), \<lparr>react = (), world = 3, trace = ?bad\<rparr>)"
    by (simp add: switch_selectedTechnique_dark_def TECHNIQUES_dark_def andThen_def
        cv_do_def cv_new_def)
  from C1_dispatch_fixed_calls [OF disjI1 [OF refl] ok]
  have p_ok: "performed (Inr ()) ?ok
       [Inr (cvtColor 0 0 11), Inr (threshold 0 1 127 255 0),
        Inl (getStructuringElement 0 (Size 5 5)),
        Inr (morphologyEx 1 1 2 2), Inr (Mat_delete 2)]"
    by auto
  from C1_dispatch_fixed_calls [OF disjI2 [OF refl] bad]
  have p_bad: "performed (Inl (Exn ''abort(OOM)'')) ?bad
       [Inr (cvtColor 0 0 11), Inr (threshold 0 1 127 255 0),
        Inl (getStructuringElement 0 (Size 5 5)),
        Inr (morphologyEx 1 1 2 2), Inr (Mat_delete 2)]"
    by auto
  from p_ok p_bad show ?thesis unfolding ok bad by simp
qed

text \<open>
  Claim C2 says that every native buffer allocated by an invocation is released before
  the invocation ends, also when a library call throws. The three \<^verbatim>\<open>delete()\<close> calls
  stand inside the \<^verbatim>\<open>try\<close> block, behind the calls that can throw, and the \<^verbatim>\<open>finally\<close>
  block only resets \<^verbatim>\<open>isProcessing\<close>. Evaluated in a library where \<^verbatim>\<open>cv.GaussianBlur\<close>
  throws, \<^verbatim>\<open>processImage\<close> ends with the source matrix 0 and the destination matrix 1
  still allocated; where \<^verbatim>\<open>cv.morphologyEx\<close> throws, the structuring element 2 stays
  allocated as well. A run in which nothing throws leaves nothing allocated. (Lemmas
  \<open>successful_run_releases_all\<close> and \<open>failed_run_leaks\<close> give the general picture.)
\<close>

theorem C2_buffers_leak_when_a_call_throws:
  "trace (processImage opencv_failing (ready ''Gaussian Blur'') 0) =
     [setIsProcessing True,
      Alloc (imread (HTMLImageElement ''data:image/png;base64,AAAA'')) (Inr 0),
      Alloc new_Mat (Inr 1),
      Proc (GaussianBlur 0 1 (Size 5 5) 0 0 4) (Inl (Exn ''abort(OOM)'')),
      console_error ''Error processing image:'' (Exn ''abort(OOM)''),
      setIsProcessing False] \<and>
   unreleased (trace (processImage opencv_failing (ready ''Gaussian Blur'') 0)) = {#0, 1#} \<and>
   unreleased (trace (processImage opencv_failing (ready ''Morphological Cleaning'') 0)) =
     {#0, 1, 2#} \<and>
   unreleased (trace (processImage opencv_ok (ready ''Canny Edge Detection'') 0)) = {#}"
  unfolding run_gaussian_failing run_morphological_failing run_canny_ok
  by (simp add: unreleased_eval)

theorem C2_buffers_leak_when_a_call_throws_witness:
  "unreleased (trace (processImage opencv_failing (ready ''Gaussian Blur'') 0)) \<noteq> {#} \<and>
   0 \<in># unreleased (trace (processImage opencv_failing (ready ''Gaussian Blur'') 0)) \<and>
   1 \<in># unreleased (trace (processImage opencv_failing (ready ''Gaussian Blur'') 0))"
proof -
  from C2_buffers_leak_when_a_call_throws
  have u: "unreleased (trace (processImage opencv_failing (ready ''Gaussian Blur'') 0)) = {#0, 1#}"
    by (elim conjE)
  show ?thesis unfolding u by simp
qed

text \<open>
  Claim C3. A successful run of \<^verbatim>\<open>processImage\<close> (of either version: the guard passed and
  nothing was caught) is exactly this trace, in this order: \<^verbatim>\<open>setIsProcessing(true)\<close>;
  (a) \<^verbatim>\<open>cv.imread\<close> of the mounted image element, returning the source matrix, and
  \<^verbatim>\<open>new cv.Mat()\<close>, returning the destination matrix; (b) the events of the switch run on
  the selected technique with these two matrices, which completes normally; (c)
  \<^verbatim>\<open>cv.imshow\<close> of the destination matrix on the mounted canvas, the canvas's
  \<^verbatim>\<open>toDataURL()\<close> and \<^verbatim>\<open>setProcessedImage\<close> with the URL it returned; (d) \<^verbatim>\<open>delete()\<close> of
  the source and of the destination matrix; \<^verbatim>\<open>setIsProcessing(false)\<close>. Afterwards the
  state differs from the one before only in \<^verbatim>\<open>processedImage\<close>, which is that URL.
\<close>

theorem C3_successful_run_steps:
  assumes "out = processImage cv s w \<or>
           out = without_theme (processImage_dark cv s2 w) \<and> s = app.truncate s2"
      and "successful (trace out)"
  shows "\<exists>image_el canvas img w1 dst w2 m2 evs url.
     imageRef s = Some image_el \<and> canvasRef s = Some canvas \<and>
     cv_alloc cv (imread image_el) w = (Inr img, w1) \<and>
     cv_alloc cv new_Mat w1 = (Inr dst, w2) \<and>
     switch_selectedTechnique cv (selectedTechnique s) img dst
       \<lparr>react = s\<lparr>isProcessing := True\<rparr>, world = w2,
        trace = [setIsProcessing True, Alloc (imread image_el) (Inr img),
                 Alloc new_Mat (Inr dst)]\<rparr> = (Inr (), m2) \<and>
     trace m2 = [setIsProcessing True, Alloc (imread image_el) (Inr img),
                 Alloc new_Mat (Inr dst)] @ evs \<and>
     trace out =
       [setIsProcessing True, Alloc (imread image_el) (Inr img), Alloc new_Mat (Inr dst)] @
       evs @
       [Proc (imshow canvas dst) (Inr ()), toDataURL canvas (Inr url),
        setProcessedImage (Some url),
        Proc (Mat_delete img) (Inr ()), Proc (Mat_delete dst) (Inr ()),
        setIsProcessing False] \<and>
     react out = s\<lparr>processedImage := Some url, isProcessing := False\<rparr>"
proof -
  from assms(1) have out: "out = processImage cv s w" by (rule either_version)
  from assms(2) have "successful (trace (processImage cv s w))" by (simp add: out)
  from processImage_success [OF this] show ?thesis
    unfolding out by blast
qed

theorem C3_successful_run_steps_witness:
  "successful (trace (processImage opencv_ok (ready ''Canny Edge Detection'') 0)) \<and>
   (\<exists>evs. trace (processImage opencv_ok (ready ''Canny Edge Detection'') 0) =
       [setIsProcessing True,
        Alloc (imread (HTMLImageElement ''data:image/png;base64,AAAA'')) (Inr 0),
        Alloc new_Mat (Inr 1)] @
       evs @
       [Proc (imshow HTMLCanvasElement 1) (Inr ()),
        toDataURL HTMLCanvasElement (Inr ''data:image/png;base64,iVBORw0KGgo=''),
        setProcessedImage (Some ''data:image/png;base64,iVBORw0KGgo=''),
        Proc (Mat_delete 0) (Inr ()), Proc (Mat_delete 1) (Inr ()),
        setIsProcessing False])"
proof -
  have ok: "successful (trace (processImage opencv_ok (ready ''Canny Edge Detection'') 0))"
    by (simp add: run_canny_ok successful_def)
  from C3_successful_run_steps [OF disjI1 [OF refl] ok]
  show ?thesis using ok unfolding run_canny_ok by (auto simp: ready_def)
qed


text \<open>
  Claim C4. For an invocation of \<^verbatim>\<open>processImage\<close> (of either version) that passes the
  guard: \<^verbatim>\<open>isProcessing\<close> is false afterwards and \<^verbatim>\<open>setIsProcessing(false)\<close> is the last
  thing done, whether the run succeeded or not; the selected image, the selected
  technique and the refs are never changed. When a statement of the try block throws,
  the throwing call is the last call made, and all that follows is one
  \<^verbatim>\<open>console.error('Error processing image:', error)\<close> with the exception thrown and
  \<^verbatim>\<open>setIsProcessing(false)\<close>; when the throw comes before \<^verbatim>\<open>cv.imshow\<close> has returned, the
  state is the state before the invocation (with \<^verbatim>\<open>isProcessing\<close> false), so
  \<^verbatim>\<open>processedImage\<close> keeps its value and the view shows nothing of the error. An
  invocation stopped by the guard changes nothing, and in a reachable state
  \<^verbatim>\<open>isProcessing\<close> is false after every invocation.
\<close>

theorem C4_catch_logs_only:
  assumes "out = processImage cv s w \<or>
           out = without_theme (processImage_dark cv s2 w) \<and> s = app.truncate s2"
  shows "(trace out \<noteq> [] \<longrightarrow>
            isProcessing (react out) = False \<and> last (trace out) = setIsProcessing False) \<and>
         (trace out = [] \<longrightarrow> react out = s) \<and>
         (reachable cv s \<longrightarrow> isProcessing (react out) = False) \<and>
         selectedImage (react out) = selectedImage s \<and>
         selectedTechnique (react out) = selectedTechnique s \<and>
         imageRef (react out) = imageRef s \<and> canvasRef (react out) = canvasRef s \<and>
         (trace out \<noteq> [] \<and> \<not> successful (trace out) \<longrightarrow>
            (\<exists>e evs. trace out =
                 setIsProcessing True # evs @
                 [console_error ''Error processing image:'' e, setIsProcessing False] \<and>
               evs \<noteq> [] \<and> filter is_console_error evs = [] \<and> thrown (last evs) = Some e \<and>
               ((\<forall>c dst. Proc (imshow c dst) (Inr ()) \<notin> set evs) \<longrightarrow>
                  react out = s\<lparr>isProcessing := False\<rparr>)))"
proof -
  from assms have out: "out = processImage cv s w" by (rule either_version)
  have resets: "trace out \<noteq> [] \<longrightarrow>
            isProcessing (react out) = False \<and> last (trace out) = setIsProcessing False"
    unfolding out using processImage_resets [of cv s w] by blast
  have skip: "trace out = [] \<longrightarrow> react out = s"
    unfolding out using processImage_trace_empty [of cv s w] by auto
  have idle: "reachable cv s \<longrightarrow> isProcessing (react out) = False"
    using resets skip reachable_idle [of cv s] by (cases "trace out = []") auto
  have caught: "trace out \<noteq> [] \<and> \<not> successful (trace out) \<longrightarrow>
            (\<exists>e evs. trace out =
                 setIsProcessing True # evs @
                 [console_error ''Error processing image:'' e, setIsProcessing False] \<and>
               evs \<noteq> [] \<and> filter is_console_error evs = [] \<and> thrown (last evs) = Some e \<and>
               ((\<forall>c dst. Proc (imshow c dst) (Inr ()) \<notin> set evs) \<longrightarrow>
                  react out = s\<lparr>isProcessing := False\<rparr>))"
  proof
    assume "trace out \<noteq> [] \<and> \<not> successful (trace out)"
    then have ne: "trace (processImage cv s w) \<noteq> []"
      and bad: "\<not> successful (trace (processImage cv s w))" by (simp_all add: out)
    from processImage_failure [OF ne bad] show "\<exists>e evs. trace out =
                 setIsProcessing True # evs @
                 [console_error ''Error processing image:'' e, setIsProcessing False] \<and>
               evs \<noteq> [] \<and> filter is_console_error evs = [] \<and> thrown (last evs) = Some e \<and>
               ((\<forall>c dst. Proc (imshow c dst) (Inr ()) \<notin> set evs) \<longrightarrow>
                  react out = s\<lparr>isProcessing := False\<rparr>)"
      unfolding out by blast
  qed
  from resets skip idle caught processImage_frame [of cv s w] show ?thesis
    unfolding out by blast
qed

theorem C4_catch_logs_only_witness:
  "trace (processImage opencv_failing (ready ''Gaussian Blur'') 0) \<noteq> [] \<and>
   \<not> successful (trace (processImage opencv_failing (ready ''Gaussian Blur'') 0)) \<and>
   react (processImage opencv_failing (ready ''Gaussian Blur'') 0) = ready ''Gaussian Blur'' \<and>
   last (trace (processImage opencv_failing (ready ''Gaussian Blur'') 0)) =
     setIsProcessing False \<and>
   (\<exists>evs. trace (processImage opencv_failing (ready ''Gaussian Blur'') 0) =
      setIsProcessing True # evs @
      [console_error ''Error processing image:'' (Exn ''abort(OOM)''), setIsProcessing False]) \<and>
   reachable opencv_failing (commit initial) \<and>
   trace (processImage opencv_failing (commit initial) 0) = [] \<and>
   react (processImage opencv_failing (commit initial) 0) = commit initial \<and>
   isProcessing (react (processImage opencv_failing (commit initial) 0)) = False"
proof -
  have idle: "trace (processImage opencv_failing (commit initial) 0) = []"
    by (simp add: processImage_def commit_def initial_def)
  note start = C4_catch_logs_only [where cv = opencv_failing and s = "commit initial"
      and w = 0, OF disjI1 [OF refl]]
  have ne: "trace (processImage opencv_failing (ready ''Gaussian Blur'') 0) \<noteq> []"
    by (simp add: run_gaussian_failing)
  note fail = C4_catch_logs_only [where cv = opencv_failing and s = "ready ''Gaussian Blur''"
      and w = 0, OF disjI1 [OF refl]]
  show ?thesis
    using fail start idle reachable.mount [of opencv_failing]
    unfolding run_gaussian_failing by (auto simp: successful_def)
qed

text \<open>
  Claim C5. The enumeration of technique names has exactly seven entries: the four
  filtering names Gaussian Blur, Median Filter, Canny Edge Detection, Laplacian Spatial
  Filter and the three segmentation names Binary Thresholding, Otsu's Thresholding,
  Morphological Cleaning; the seven are pairwise distinct. Both versions of the
  application declare the same enumeration.
\<close>

theorem C5_seven_techniques:
  "Object_values_filtering (FILTERING TECHNIQUES) =
     [''Gaussian Blur'', ''Median Filter'', ''Canny Edge Detection'', ''Laplacian Spatial Filter'']
   \<and> Object_values_segmentation (SEGMENTATION TECHNIQUES) =
     [''Binary Thresholding'', ''Otsu's Thresholding'', ''Morphological Cleaning'']
   \<and> length (Object_values_filtering (FILTERING TECHNIQUES)) = 4
   \<and> length (Object_values_segmentation (SEGMENTATION TECHNIQUES)) = 3
   \<and> length (Object_values_filtering (FILTERING TECHNIQUES) @
             Object_values_segmentation (SEGMENTATION TECHNIQUES)) = 7
   \<and> distinct (Object_values_filtering (FILTERING TECHNIQUES) @
               Object_values_segmentation (SEGMENTATION TECHNIQUES))
   \<and> TECHNIQUES_dark = TECHNIQUES"
  by (simp add: Object_values_filtering_def Object_values_segmentation_def
      TECHNIQUES_def TECHNIQUES_dark_def)

text \<open>
  Claim C6. \<^verbatim>\<open>processImage\<close> returns at once, with no library call, no state change and
  no event at all, whenever \<^verbatim>\<open>selectedImage\<close> is null (or empty), \<^verbatim>\<open>selectedTechnique\<close>
  is empty, or the image or canvas ref is not mounted; so any event of an invocation
  implies that all four are present. The Process Image button is rendered disabled
  exactly when no image is selected, no technique is selected or \<^verbatim>\<open>isProcessing\<close> is
  true.
\<close>

theorem C6_guard_and_button:
  "(\<not> truthy (selectedImage s) \<or> selectedTechnique s = [] \<or>
      imageRef s = None \<or> canvasRef s = None \<longrightarrow>
      processImage cv s w = \<lparr>react = s, world = w, trace = []\<rparr>) \<and>
   (selectedImage s = None \<longrightarrow> processImage cv s w = \<lparr>react = s, world = w, trace = []\<rparr>) \<and>
   (trace (processImage cv s w) \<noteq> [] \<longrightarrow>
      truthy (selectedImage s) \<and> selectedTechnique s \<noteq> [] \<and>
      imageRef s \<noteq> None \<and> canvasRef s \<noteq> None) \<and>
   (process_disabled (App_render s) \<longleftrightarrow>
      \<not> truthy (selectedImage s) \<or> selectedTechnique s = [] \<or> isProcessing s) \<and>
   (selectedImage s = None \<or> selectedTechnique s = [] \<or> isProcessing s \<longrightarrow>
      process_disabled (App_render s))"
proof -
  have a: "\<not> truthy (selectedImage s) \<or> selectedTechnique s = [] \<or>
      imageRef s = None \<or> canvasRef s = None \<longrightarrow>
      processImage cv s w = \<lparr>react = s, world = w, trace = []\<rparr>"
    using processImage_guard [of s cv w] by blast
  have b: "selectedImage s = None \<longrightarrow> processImage cv s w = \<lparr>react = s, world = w, trace = []\<rparr>"
    using a by simp
  have c: "trace (processImage cv s w) \<noteq> [] \<longrightarrow>
      truthy (selectedImage s) \<and> selectedTechnique s \<noteq> [] \<and>
      imageRef s \<noteq> None \<and> canvasRef s \<noteq> None"
    using processImage_trace_nonempty [of cv s w] by blast
  have d: "process_disabled (App_render s) \<longleftrightarrow>
      \<not> truthy (selectedImage s) \<or> selectedTechnique s = [] \<or> isProcessing s"
    by (simp add: App_render_def)
  have e: "selectedImage s = None \<or> selectedTechnique s = [] \<or> isProcessing s \<longrightarrow>
      process_disabled (App_render s)"
    by (auto simp: App_render_def)
  from a b c d e show ?thesis by blast
qed

theorem C6_guard_and_button_witness:
  "processImage opencv_ok initial 0 = \<lparr>react = initial, world = 0, trace = []\<rparr> \<and>
   process_disabled (App_render initial) \<and>
   processImage opencv_ok ((ready ''Median Filter'')\<lparr>imageRef := None\<rparr>) 0 =
     \<lparr>react = (ready ''Median Filter'')\<lparr>imageRef := None\<rparr>, world = 0, trace = []\<rparr>"
  using C6_guard_and_button [of initial opencv_ok 0]
        C6_guard_and_button [of "(ready ''Median Filter'')\<lparr>imageRef := None\<rparr>" opencv_ok 0]
  by (simp add: initial_def)

text \<open>
  Claim C7. After a successful run of \<^verbatim>\<open>processImage\<close> the destination matrix has been
  shown on the mounted canvas by \<^verbatim>\<open>cv.imshow\<close>, the canvas's \<^verbatim>\<open>toDataURL()\<close> has been
  read next, and \<^verbatim>\<open>processedImage\<close> is the URL it returned. \<^verbatim>\<open>downloadImage\<close> then creates
  an anchor whose \<^verbatim>\<open>href\<close> is exactly that URL and whose \<^verbatim>\<open>download\<close> is
  \<^verbatim>\<open>processed-image.png\<close>, appends it, clicks it and removes it (a data URL is never the
  empty string, which JavaScript would take for false). With \<^verbatim>\<open>processedImage\<close> null,
  \<^verbatim>\<open>downloadImage\<close> does nothing.
\<close>

theorem C7_render_then_download:
  "(successful (trace (processImage cv s w)) \<longrightarrow>
      (\<exists>canvas dst url pre post.
         canvasRef s = Some canvas \<and> Alloc new_Mat (Inr dst) \<in> set pre \<and>
         trace (processImage cv s w) =
           pre @ [Proc (imshow canvas dst) (Inr ()), toDataURL canvas (Inr url),
                  setProcessedImage (Some url)] @ post \<and>
         processedImage (react (processImage cv s w)) = Some url \<and>
         (url \<noteq> [] \<longrightarrow>
            downloadImage (react (processImage cv s w)) =
              [createElement ''a'',
               appendChild \<lparr>href = url, download = ''processed-image.png''\<rparr>,
               click \<lparr>href = url, download = ''processed-image.png''\<rparr>,
               removeChild \<lparr>href = url, download = ''processed-image.png''\<rparr>]))) \<and>
   (processedImage s' = None \<longrightarrow> downloadImage s' = [])"
proof (intro conjI impI)
  assume ok: "successful (trace (processImage cv s w))"
  from processImage_success [OF ok] obtain image_el canvas img dst evs url where
    c: "canvasRef s = Some canvas"
    and tr: "trace (processImage cv s w) =
       [setIsProcessing True, Alloc (imread image_el) (Inr img), Alloc new_Mat (Inr dst)] @
       evs @
       [Proc (imshow canvas dst) (Inr ()), toDataURL canvas (Inr url),
        setProcessedImage (Some url),
        Proc (Mat_delete img) (Inr ()), Proc (Mat_delete dst) (Inr ()),
        setIsProcessing False]"
    and re: "react (processImage cv s w) = s\<lparr>processedImage := Some url, isProcessing := False\<rparr>"
    by blast
  let ?pre = "[setIsProcessing True, Alloc (imread image_el) (Inr img), Alloc new_Mat (Inr dst)] @ evs"
  let ?post = "[Proc (Mat_delete img) (Inr ()), Proc (Mat_delete dst) (Inr ()),
        setIsProcessing False]"
  show "\<exists>canvas dst url pre post.
         canvasRef s = Some canvas \<and> Alloc new_Mat (Inr dst) \<in> set pre \<and>
         trace (processImage cv s w) =
           pre @ [Proc (imshow canvas dst) (Inr ()), toDataURL canvas (Inr url),
                  setProcessedImage (Some url)] @ post \<and>
         processedImage (react (processImage cv s w)) = Some url \<and>
         (url \<noteq> [] \<longrightarrow>
            downloadImage (react (processImage cv s w)) =
              [createElement ''a'',
               appendChild \<lparr>href = url, download = ''processed-image.png''\<rparr>,
               click \<lparr>href = url, download = ''processed-image.png''\<rparr>,
               removeChild \<lparr>href = url, download = ''processed-image.png''\<rparr>])"
    using c tr re
    by (intro exI [of _ canvas] exI [of _ dst] exI [of _ url] exI [of _ ?pre] exI [of _ ?post])
       (simp add: downloadImage_def Let_def)
next
  assume "processedImage s' = None"
  then show "downloadImage s' = []" by (simp add: downloadImage_def)
qed

theorem C7_render_then_download_witness:
  "successful (trace (processImage opencv_ok (ready ''Median Filter'') 0)) \<and>
   processedImage (react (processImage opencv_ok (ready ''Median Filter'') 0)) =
     Some ''data:image/png;base64,iVBORw0KGgo='' \<and>
   downloadImage (react (processImage opencv_ok (ready ''Median Filter'') 0)) =
     [createElement ''a'',
      appendChild \<lparr>href = ''data:image/png;base64,iVBORw0KGgo='',
                    download = ''processed-image.png''\<rparr>,
      click \<lparr>href = ''data:image/png;base64,iVBORw0KGgo='',
              download = ''processed-image.png''\<rparr>,
      removeChild \<lparr>href = ''data:image/png;base64,iVBORw0KGgo='',
                    download = ''processed-image.png''\<rparr>] \<and>
   processedImage initial = None \<and> downloadImage initial = []"
  using C7_render_then_download [of opencv_ok "ready ''Median Filter''" 0 initial]
  unfolding run_median_ok by (auto simp: successful_def initial_def)

text \<open>
  Claim C8. When the read of an uploaded file completes with a data URL, whether the
  file came through the file input or was dropped (in either version),
  \<^verbatim>\<open>selectedImage\<close> becomes that URL and \<^verbatim>\<open>processedImage\<close> becomes null; the view rendered
  from the new state shows no output image, has the download button disabled, and
  \<^verbatim>\<open>downloadImage\<close> does nothing. Over all reachable states: a non-null
  \<^verbatim>\<open>processedImage\<close> is always the URL read from the canvas in a run of \<^verbatim>\<open>processImage\<close>
  that started in a reachable state with the same \<^verbatim>\<open>selectedImage\<close> and that called
  \<^verbatim>\<open>cv.imread\<close> on the image element showing it; so a result of an earlier image is
  never on display next to a newer one.
\<close>

theorem C8_upload_resets_output:
  assumes "readAsDataURL f = Some url"
  shows "handleImageUpload (Some f) s =
           Inr (s\<lparr>selectedImage := Some url, processedImage := None\<rparr>) \<and>
         fileInput_onChange (Some (f # fs)) s =
           Inr (s\<lparr>selectedImage := Some url, processedImage := None\<rparr>) \<and>
         handleDrop (Some (f # fs)) s =
           Inr (s\<lparr>selectedImage := Some url, processedImage := None\<rparr>) \<and>
         handleImageUpload_dark (Some f) d =
           Inr (d\<lparr>selectedImage := Some url, processedImage := None\<rparr>) \<and>
         fileInput_onChange_dark (Some (f # fs)) d =
           Inr (d\<lparr>selectedImage := Some url, processedImage := None\<rparr>) \<and>
         handleDrop_dark (Some (f # fs)) d =
           Inr (d\<lparr>selectedImage := Some url, processedImage := None\<rparr>) \<and>
         output_img (App_render (commit (s\<lparr>selectedImage := Some url, processedImage := None\<rparr>)))
           = None \<and>
         download_disabled
           (App_render (commit (s\<lparr>selectedImage := Some url, processedImage := None\<rparr>))) \<and>
         downloadImage (commit (s\<lparr>selectedImage := Some url, processedImage := None\<rparr>)) = [] \<and>
         (reachable cv t \<and> processedImage t = Some u \<longrightarrow>
            (\<exists>src s0 w0 img c.
               selectedImage t = Some src \<and> reachable cv s0 \<and> selectedImage s0 = Some src \<and>
               Alloc (imread (HTMLImageElement src)) (Inr img)
                 \<in> set (trace (processImage cv s0 w0)) \<and>
               toDataURL c (Inr u) \<in> set (trace (processImage cv s0 w0))))"
proof -
  have up: "handleImageUpload (Some f) s =
           Inr (s\<lparr>selectedImage := Some url, processedImage := None\<rparr>)"
    using assms by (simp add: handleImageUpload_def)
  have up_dark: "handleImageUpload_dark (Some f) d =
           Inr (d\<lparr>selectedImage := Some url, processedImage := None\<rparr>)"
    using assms by (simp add: handleImageUpload_dark_def)
  have pick: "fileInput_onChange (Some (f # fs)) s = handleImageUpload (Some f) s"
    by (simp add: fileInput_onChange_def)
  have drop: "handleDrop (Some (f # fs)) s = handleImageUpload (Some f) s"
    by (simp add: handleDrop_def)
  have pick_dark: "fileInput_onChange_dark (Some (f # fs)) d = handleImageUpload_dark (Some f) d"
    by (simp add: fileInput_onChange_dark_def)
  have drop_dark: "handleDrop_dark (Some (f # fs)) d = handleImageUpload_dark (Some f) d"
    by (simp add: handleDrop_dark_def)
  have view: "output_img (App_render (commit (s\<lparr>selectedImage := Some url, processedImage := None\<rparr>)))
           = None"
    "download_disabled
           (App_render (commit (s\<lparr>selectedImage := Some url, processedImage := None\<rparr>)))"
    "downloadImage (commit (s\<lparr>selectedImage := Some url, processedImage := None\<rparr>)) = []"
    by (simp_all add: App_render_def downloadImage_def)
  have inv: "reachable cv t \<and> processedImage t = Some u \<longrightarrow>
            (\<exists>src s0 w0 img c.
               selectedImage t = Some src \<and> reachable cv s0 \<and> selectedImage s0 = Some src \<and>
               Alloc (imread (HTMLImageElement src)) (Inr img)
                 \<in> set (trace (processImage cv s0 w0)) \<and>
               toDataURL c (Inr u) \<in> set (trace (processImage cv s0 w0)))"
    using reachable_provenance [of cv t u] by blast
  from up up_dark pick drop pick_dark drop_dark view inv show ?thesis by simp
qed


theorem C8_upload_resets_output_witness:
  "readAsDataURL (File (Some ''data:image/png;base64,BBBB'')) = Some ''data:image/png;base64,BBBB'' \<and>
   handleImageUpload (Some (File (Some ''data:image/png;base64,BBBB'')))
     ((ready ''Median Filter'')\<lparr>processedImage := Some ''data:image/png;base64,iVBORw0KGgo=''\<rparr>) =
     Inr ((ready ''Median Filter'')\<lparr>selectedImage := Some ''data:image/png;base64,BBBB''\<rparr>) \<and>
   handleDrop (Some [File (Some ''data:image/png;base64,BBBB'')])
     ((ready ''Median Filter'')\<lparr>processedImage := Some ''data:image/png;base64,iVBORw0KGgo=''\<rparr>) =
     Inr ((ready ''Median Filter'')\<lparr>selectedImage := Some ''data:image/png;base64,BBBB''\<rparr>) \<and>
   handleImageUpload_dark (Some (File (Some ''data:image/png;base64,BBBB'')))
     ((ready_dark ''Median Filter'')\<lparr>processedImage := Some ''data:image/png;base64,iVBORw0KGgo=''\<rparr>) =
     Inr ((ready_dark ''Median Filter'')\<lparr>selectedImage := Some ''data:image/png;base64,BBBB''\<rparr>) \<and>
   reachable opencv_ok
     ((ready ''Median Filter'')\<lparr>processedImage := Some ''data:image/png;base64,iVBORw0KGgo=''\<rparr>) \<and>
   (\<exists>s0 w0 img c.
      reachable opencv_ok s0 \<and> selectedImage s0 = Some ''data:image/png;base64,AAAA'' \<and>
      Alloc (imread (HTMLImageElement ''data:image/png;base64,AAAA'')) (Inr img)
        \<in> set (trace (processImage opencv_ok s0 w0)) \<and>
      toDataURL c (Inr ''data:image/png;base64,iVBORw0KGgo='')
        \<in> set (trace (processImage opencv_ok s0 w0)))"
proof -
  let ?f = "File (Some ''data:image/png;base64,BBBB'')"
  let ?prev = "(ready ''Median Filter'')
                 \<lparr>processedImage := Some ''data:image/png;base64,iVBORw0KGgo=''\<rparr>"
  let ?prev_dark = "(ready_dark ''Median Filter'')
                 \<lparr>processedImage := Some ''data:image/png;base64,iVBORw0KGgo=''\<rparr>"
  have rd: "readAsDataURL ?f = Some ''data:image/png;base64,BBBB''" by simp
  note up = C8_upload_resets_output [OF rd, where fs = "[]" and s = ?prev and d = ?prev_dark
      and cv = opencv_ok and t = ?prev and u = "''data:image/png;base64,iVBORw0KGgo=''"]
  have pi: "processedImage ?prev = Some ''data:image/png;base64,iVBORw0KGgo=''" by simp
  have si: "selectedImage ?prev = Some ''data:image/png;base64,AAAA''" by (simp add: ready_def)
  from up reachable_after_median pi si show ?thesis
    by (simp add: ready_def ready_dark_def)
qed

text \<open>
  Claim C9. In every reachable state \<^verbatim>\<open>selectedTechnique\<close> is the empty string or one of
  the seven values of \<^verbatim>\<open>TECHNIQUES\<close>, since the only assignment is the \<^verbatim>\<open>onChange\<close> of a
  rendered radio input, whose value is one of them. Hence, when the guard of
  \<^verbatim>\<open>processImage\<close> passes, exactly one of the seven case labels of the switch equals
  \<^verbatim>\<open>selectedTechnique\<close>, and the switch does run a case: it makes at least one call.
\<close>

theorem C9_selectedTechnique_enumerated:
  assumes "reachable cv s"
  shows "(selectedTechnique s = [] \<or>
          selectedTechnique s \<in> set (Object_values_filtering (FILTERING TECHNIQUES) @
                                     Object_values_segmentation (SEGMENTATION TECHNIQUES))) \<and>
         (truthy (selectedImage s) \<and> selectedTechnique s \<noteq> [] \<and>
          imageRef s \<noteq> None \<and> canvasRef s \<noteq> None \<longrightarrow>
            length (filter (\<lambda>label. selectedTechnique s = label)
              [GAUSSIAN (FILTERING TECHNIQUES), MEDIAN (FILTERING TECHNIQUES),
               CANNY (FILTERING TECHNIQUES), LAPLACIAN (FILTERING TECHNIQUES),
               BINARY (SEGMENTATION TECHNIQUES), OTSU (SEGMENTATION TECHNIQUES),
               MORPHOLOGICAL (SEGMENTATION TECHNIQUES)]) = 1 \<and>
            trace (snd (switch_selectedTechnique cv (selectedTechnique s) img dst m)) \<noteq> trace m)"
proof -
  from reachable_technique [OF assms]
  have t: "selectedTechnique s \<in> {[], ''Gaussian Blur'', ''Median Filter'',
          ''Canny Edge Detection'', ''Laplacian Spatial Filter'', ''Binary Thresholding'',
          ''Otsu's Thresholding'', ''Morphological Cleaning''}" .
  then have a: "selectedTechnique s = [] \<or>
          selectedTechnique s \<in> set (Object_values_filtering (FILTERING TECHNIQUES) @
                                     Object_values_segmentation (SEGMENTATION TECHNIQUES))"
    by (auto simp: Object_values_filtering_def Object_values_segmentation_def TECHNIQUES_def)
  have b: "length (filter (\<lambda>label. selectedTechnique s = label)
              [GAUSSIAN (FILTERING TECHNIQUES), MEDIAN (FILTERING TECHNIQUES),
               CANNY (FILTERING TECHNIQUES), LAPLACIAN (FILTERING TECHNIQUES),
               BINARY (SEGMENTATION TECHNIQUES), OTSU (SEGMENTATION TECHNIQUES),
               MORPHOLOGICAL (SEGMENTATION TECHNIQUES)]) = 1"
    if "selectedTechnique s \<noteq> []"
    using t that by (auto simp: TECHNIQUES_def)
  have c: "trace (snd (switch_selectedTechnique cv (selectedTechnique s) img dst m)) \<noteq> trace m"
    if "selectedTechnique s \<noteq> []"
    using t that by (intro switch_runs_a_case) auto
  from a b c show ?thesis by blast
qed

theorem C9_selectedTechnique_enumerated_witness:
  "reachable opencv_ok (ready ''Canny Edge Detection'') \<and>
   selectedTechnique (ready ''Canny Edge Detection'') = ''Canny Edge Detection'' \<and>
   length (filter (\<lambda>label. selectedTechnique (ready ''Canny Edge Detection'') = label)
              [GAUSSIAN (FILTERING TECHNIQUES), MEDIAN (FILTERING TECHNIQUES),
               CANNY (FILTERING TECHNIQUES), LAPLACIAN (FILTERING TECHNIQUES),
               BINARY (SEGMENTATION TECHNIQUES), OTSU (SEGMENTATION TECHNIQUES),
               MORPHOLOGICAL (SEGMENTATION TECHNIQUES)]) = 1 \<and>
   reachable opencv_ok (commit initial) \<and> selectedTechnique (commit initial) = []"
proof -
  have r: "reachable opencv_ok (ready ''Canny Edge Detection'')"
    by (rule reachable_ready)
       (simp add: Object_values_filtering_def Object_values_segmentation_def TECHNIQUES_def)
  from C9_selectedTechnique_enumerated [OF r]
       C9_selectedTechnique_enumerated [OF reachable.mount [of opencv_ok]]
  show ?thesis using r reachable.mount [of opencv_ok]
    by (simp add: ready_def initial_def TECHNIQUES_def)
qed


text \<open>
  Claim C10. The two versions process alike. For every state of the dark-mode variant,
  every library and every world (so every technique name and every image), its
  \<^verbatim>\<open>processImage\<close>, seen without the theme cell, is the \<^verbatim>\<open>processImage\<close> of
  \<^verbatim>\<open>src/src/App.tsx\<close> run on the same state without the theme cell: the same events in
  the same order with the same arguments and outcomes, the same final world, the same
  \<^verbatim>\<open>processedImage\<close>. The theme cell is not changed by processing, and changing it
  before the run changes nothing of the run but that cell.
\<close>

theorem C10_versions_equivalent:
  "without_theme (processImage_dark cv s w) = processImage cv (app.truncate s) w \<and>
   trace (processImage_dark cv s w) = trace (processImage cv (app.truncate s) w) \<and>
   world (processImage_dark cv s w) = world (processImage cv (app.truncate s) w) \<and>
   processedImage (react (processImage_dark cv s w)) =
     processedImage (react (processImage cv (app.truncate s) w)) \<and>
   isDarkMode (react (processImage_dark cv s w)) = isDarkMode s \<and>
   processImage_dark cv (s\<lparr>isDarkMode := d\<rparr>) w =
     (processImage_dark cv s w)\<lparr>react := (react (processImage_dark cv s w))\<lparr>isDarkMode := d\<rparr>\<rparr>"
proof -
  have sim: "without_theme (processImage_dark cv s w) = processImage cv (app.truncate s) w"
    by (rule processImage_dark_sim)
  have sim': "without_theme (processImage_dark cv (s\<lparr>isDarkMode := d\<rparr>) w) =
      processImage cv (app.truncate s) w"
    by (simp add: processImage_dark_sim)
  from sim have tr: "trace (processImage_dark cv s w) = trace (processImage cv (app.truncate s) w)"
    and wo: "world (processImage_dark cv s w) = world (processImage cv (app.truncate s) w)"
    and re: "app.truncate (react (processImage_dark cv s w)) =
             react (processImage cv (app.truncate s) w)"
    by (auto simp: without_theme_def dest: arg_cong [where f = trace]
        arg_cong [where f = world] arg_cong [where f = react])
  from sim' have tr': "trace (processImage_dark cv (s\<lparr>isDarkMode := d\<rparr>) w) =
        trace (processImage cv (app.truncate s) w)"
    and wo': "world (processImage_dark cv (s\<lparr>isDarkMode := d\<rparr>) w) =
        world (processImage cv (app.truncate s) w)"
    and re': "app.truncate (react (processImage_dark cv (s\<lparr>isDarkMode := d\<rparr>) w)) =
             react (processImage cv (app.truncate s) w)"
    by (auto simp: without_theme_def dest: arg_cong [where f = trace]
        arg_cong [where f = world] arg_cong [where f = react])
  have pi: "processedImage (react (processImage_dark cv s w)) =
     processedImage (react (processImage cv (app.truncate s) w))"
    using re [symmetric] by simp
  have th: "isDarkMode (react (processImage_dark cv s w)) = isDarkMode s"
    by (rule processImage_dark_theme)
  have "react (processImage_dark cv (s\<lparr>isDarkMode := d\<rparr>) w) =
        (react (processImage_dark cv s w))\<lparr>isDarkMode := d\<rparr>"
    by (rule app_dark_eqI) (simp_all add: re re' processImage_dark_theme)
  then have ind: "processImage_dark cv (s\<lparr>isDarkMode := d\<rparr>) w =
     (processImage_dark cv s w)\<lparr>react := (react (processImage_dark cv s w))\<lparr>isDarkMode := d\<rparr>\<rparr>"
    using tr tr' wo wo' by (cases "processImage_dark cv (s\<lparr>isDarkMode := d\<rparr>) w",
        cases "processImage_dark cv s w") simp
  from sim tr wo pi th ind show ?thesis by blast
qed


theorem C10_versions_equivalent_witness:
  "trace (processImage_dark opencv_ok (ready_dark ''Otsu's Thresholding'') 0) =
     [setIsProcessing True,
      Alloc (imread (HTMLImageElement ''data:image/png;base64,AAAA'')) (Inr 0),
      Alloc new_Mat (Inr 1),
      Proc (cvtColor 0 0 11) (Inr ()),
      Proc (threshold 0 1 0 255 8) (Inr ()),
      Proc (imshow HTMLCanvasElement 1) (Inr ()),
      toDataURL HTMLCanvasElement (Inr ''data:image/png;base64,iVBORw0KGgo=''),
      setProcessedImage (Some ''data:image/png;base64,iVBORw0KGgo=''),
      Proc (Mat_delete 0) (Inr ()),
      Proc (Mat_delete 1) (Inr ()),
      setIsProcessing False] \<and>
   processedImage (react (processImage_dark opencv_ok (ready_dark ''Otsu's Thresholding'') 0)) =
     Some ''data:image/png;base64,iVBORw0KGgo='' \<and>
   isDarkMode (react (processImage_dark opencv_ok (ready_dark ''Otsu's Thresholding'') 0)) = True \<and>
   isDarkMode (react (processImage_dark opencv_ok
      ((ready_dark ''Otsu's Thresholding'')\<lparr>isDarkMode := False\<rparr>) 0)) = False"
  using C10_versions_equivalent [of opencv_ok "ready_dark ''Otsu's Thresholding''" 0 False]
  unfolding truncate_ready_dark run_otsu_ok by (simp add: ready_dark_def)


end
